theory Spec2Isabelle
  imports Main
begin

section \<open>JavaScript values and the error taxonomy (src/errors.ts)\<close>

text \<open>
  The codes of \<^verbatim>\<open>QB_ERROR_CODES\<close>, one constructor for each member.
\<close>

datatype QuickBooksErrorCode =
    TOKEN_EXPIRED | REFRESH_FAILED | UNAUTHORIZED | INVALID_REALM | API_ERROR
  | RATE_LIMIT | NETWORK_ERROR | INVALID_CONFIG | TOKEN_STORE_ERROR

text \<open>
  The values that reach the client as thrown errors or as decoded JSON: the JSON values,
  instances of the built-in error classes (the class and the value of the \<^verbatim>\<open>message\<close>
  property, a string unless the instance was changed after its construction), and
  instances of \<^verbatim>\<open>QuickBooksError\<close> (message, code, optional status, details). Numbers are
  integers: every number the code inspects is an HTTP status, a count or a time. The
  members of an object are kept in property enumeration order, each key once; none of them
  is a function, as in every value that \<^verbatim>\<open>JSON.parse\<close> makes. Objects with accessors,
  proxies and objects without a prototype are not values of this type.
\<close>

datatype errclass = TypeError | SyntaxError | OtherError

datatype jsval =
    JUndefined
  | JNull
  | JBool bool
  | JNum int
  | JStr string
  | JArr "jsval list"
  | JObj "(string \<times> jsval) list"
  | ErrorV errclass jsval
  | QuickBooksError string QuickBooksErrorCode "int option" jsval

subsection \<open>Numbers to strings\<close>

fun showNat :: "nat \<Rightarrow> string" where
  "showNat n =
     (if n < 10 then [''0123456789'' ! n]
      else showNat (n div 10) @ [''0123456789'' ! (n mod 10)])"

declare showNat.simps [simp del]

definition showInt :: "int \<Rightarrow> string" where
  "showInt i = (if i < 0 then CHR ''-'' # showNat (nat (- i)) else showNat (nat i))"

subsection \<open>Property access, truthiness, String()\<close>

text \<open>
  The own enumerable properties of a value, in enumeration order: what
  \<^verbatim>\<open>Object.keys\<close> lists and what an object spread copies. An array and a string
  have their indices.
\<close>

definition indexKeys :: "nat \<Rightarrow> string list" where
  "indexKeys n = map showNat [0..<n]"

fun ownProps :: "jsval \<Rightarrow> (string \<times> jsval) list" where
  "ownProps (JObj fs) = fs"
| "ownProps (JArr xs) = zip (indexKeys (length xs)) xs"
| "ownProps (JStr s) = zip (indexKeys (length s)) (map (\<lambda>c. JStr [c]) s)"
| "ownProps _ = []"

text \<open>
  \<^verbatim>\<open>v.k\<close> or \<^verbatim>\<open>v[k]\<close> for the properties the client reads: an error instance has its
  \<^verbatim>\<open>message\<close>, a \<^verbatim>\<open>QuickBooksError\<close> also its \<^verbatim>\<open>status\<close>; a missing
  property reads as \<^verbatim>\<open>undefined\<close>.
\<close>

fun getProp :: "jsval \<Rightarrow> string \<Rightarrow> jsval" where
  "getProp (ErrorV c m) k = (if k = ''message'' then m else JUndefined)"
| "getProp (QuickBooksError m c s d) k =
     (if k = ''message'' then JStr m
      else if k = ''status'' then (case s of Some n \<Rightarrow> JNum n | None \<Rightarrow> JUndefined)
      else if k = ''details'' then d
      else JUndefined)"
| "getProp v k = (case map_of (ownProps v) k of Some x \<Rightarrow> x | None \<Rightarrow> JUndefined)"

fun truthy :: "jsval \<Rightarrow> bool" where
  "truthy JUndefined = False"
| "truthy JNull = False"
| "truthy (JBool b) = b"
| "truthy (JNum n) = (n \<noteq> 0)"
| "truthy (JStr s) = (s \<noteq> [])"
| "truthy _ = True"

text \<open>\<^verbatim>\<open>a || b\<close>\<close>

definition orElse :: "jsval \<Rightarrow> jsval \<Rightarrow> jsval" where
  "orElse a b = (if truthy a then a else b)"

fun joinComma :: "string list \<Rightarrow> string" where
  "joinComma [] = []"
| "joinComma [s] = s"
| "joinComma (s # t) = s @ CHR '','' # joinComma t"

fun className :: "errclass \<Rightarrow> string" where
  "className TypeError = ''TypeError''"
| "className SyntaxError = ''SyntaxError''"
| "className OtherError = ''Error''"

text \<open>\<^verbatim>\<open>Error.prototype.toString\<close>: the name, a colon and the message, or the name alone.\<close>

definition errorToString :: "string \<Rightarrow> string \<Rightarrow> string" where
  "errorToString name msg = (if msg = [] then name else name @ '': '' @ msg)"

text \<open>
  A list of outcomes evaluated from left to right: the first that throws, or all results.
\<close>

fun firstThrown :: "('e + 'a) list \<Rightarrow> 'e + 'a list" where
  "firstThrown [] = Inr []"
| "firstThrown (Inl e # rs) = Inl e"
| "firstThrown (Inr x # rs) = (case firstThrown rs of Inl e \<Rightarrow> Inl e | Inr xs \<Rightarrow> Inr (x # xs))"

definition cannotConvert :: jsval where
  "cannotConvert = ErrorV TypeError (JStr ''Cannot convert object to primitive value'')"

text \<open>
  \<^verbatim>\<open>String(v)\<close>, with the \<^verbatim>\<open>TypeError\<close> it throws on the left. A plain object gives
  \<^verbatim>\<open>[object Object]\<close> through \<^verbatim>\<open>Object.prototype.toString\<close>, unless it has an own member
  named \<^verbatim>\<open>toString\<close>: that member is not a function, so the conversion goes on to
  \<^verbatim>\<open>valueOf\<close>, which is no function either or gives the object back, and throws. An
  array joins the strings of its elements with commas, an element that is \<^verbatim>\<open>null\<close> or
  \<^verbatim>\<open>undefined\<close> giving the empty string. An error instance gives its name, a colon and
  the string of its message.
\<close>

fun jsString :: "jsval \<Rightarrow> jsval + string" where
  "jsString JUndefined = Inr ''undefined''"
| "jsString JNull = Inr ''null''"
| "jsString (JBool b) = Inr (if b then ''true'' else ''false'')"
| "jsString (JNum n) = Inr (showInt n)"
| "jsString (JStr s) = Inr s"
| "jsString (JArr xs) =
     (case firstThrown
             (map (\<lambda>v. case v of JUndefined \<Rightarrow> Inr [] | JNull \<Rightarrow> Inr [] | _ \<Rightarrow> jsString v) xs) of
        Inl thrown \<Rightarrow> Inl thrown
      | Inr strings \<Rightarrow> Inr (joinComma strings))"
| "jsString (JObj fs) =
     (if ''toString'' \<in> set (map fst fs) then Inl cannotConvert else Inr ''[object Object]'')"
| "jsString (ErrorV c m) =
     (case (case m of JUndefined \<Rightarrow> Inr [] | _ \<Rightarrow> jsString m) of
        Inl thrown \<Rightarrow> Inl thrown
      | Inr msg \<Rightarrow> Inr (errorToString (className c) msg))"
| "jsString (QuickBooksError m c s d) = Inr (errorToString ''QuickBooksError'' m)"

text \<open>\<^verbatim>\<open>s.includes(pat)\<close>: \<open>pat\<close> occurs in \<open>s\<close> as a contiguous run.\<close>

fun strIncludes :: "string \<Rightarrow> string \<Rightarrow> bool" where
  "strIncludes [] pat = (pat = [])"
| "strIncludes (c # t) pat = (take (length pat) (c # t) = pat \<or> strIncludes t pat)"

fun instanceofQuickBooksError :: "jsval \<Rightarrow> bool" where
  "instanceofQuickBooksError (QuickBooksError m c s d) = True"
| "instanceofQuickBooksError _ = False"

fun instanceofTypeError :: "jsval \<Rightarrow> bool" where
  "instanceofTypeError (ErrorV TypeError m) = True"
| "instanceofTypeError _ = False"

text \<open>\<^verbatim>\<open>typeof v === "object" && v !== null\<close>\<close>

fun isObject :: "jsval \<Rightarrow> bool" where
  "isObject (JArr xs) = True"
| "isObject (JObj fs) = True"
| "isObject (ErrorV c m) = True"
| "isObject (QuickBooksError m c s d) = True"
| "isObject _ = False"

fun typeofNumber :: "jsval \<Rightarrow> bool" where
  "typeofNumber (JNum n) = True"
| "typeofNumber _ = False"

subsection \<open>handleQuickBooksError\<close>

text \<open>
  \<^verbatim>\<open>error.message.includes(pat)\<close> for the message \<open>m\<close>: the substring test of a string,
  the membership test of an array; any other value has no method \<^verbatim>\<open>includes\<close> and the
  call throws a \<^verbatim>\<open>TypeError\<close>.
\<close>

definition messageIncludes :: "jsval \<Rightarrow> string \<Rightarrow> jsval + bool" where
  "messageIncludes m pat =
     (case m of
        JStr s \<Rightarrow> Inr (strIncludes s pat)
      | JArr xs \<Rightarrow> Inr (JStr pat \<in> set xs)
      | _ \<Rightarrow> Inl (ErrorV TypeError (JStr ''error.message.includes is not a function'')))"

text \<open>
  \<^verbatim>\<open>handleQuickBooksError\<close>: on the right the \<^verbatim>\<open>QuickBooksError\<close> it returns, on the left
  what it throws itself, which is what the test of a \<^verbatim>\<open>TypeError\<close>'s message or the
  conversion \<^verbatim>\<open>String(err.message || "")\<close> throws.
\<close>

definition handleQuickBooksError :: "jsval \<Rightarrow> jsval + jsval" where
  "handleQuickBooksError error =
     (if instanceofQuickBooksError error then Inr error
      else case (if instanceofTypeError error
                 then messageIncludes (getProp error ''message'') ''fetch'' else Inr False) of
        Inl thrown \<Rightarrow> Inl thrown
      | Inr isFetchError \<Rightarrow>
          if isFetchError
          then Inr (QuickBooksError ''Network error connecting to QuickBooks API'' NETWORK_ERROR
                      (Some 0) error)
          else if isObject error \<and> typeofNumber (getProp error ''status'')
                  \<and> getProp error ''status'' = JNum 401
          then Inr (QuickBooksError ''Unauthorized access to QuickBooks API'' UNAUTHORIZED
                      (Some 401) error)
          else if isObject error \<and> typeofNumber (getProp error ''status'')
                  \<and> getProp error ''status'' = JNum 403
          then Inr (QuickBooksError ''Access forbidden - check API permissions'' UNAUTHORIZED
                      (Some 403) error)
          else if isObject error \<and> typeofNumber (getProp error ''status'')
                  \<and> getProp error ''status'' = JNum 429
          then Inr (QuickBooksError ''QuickBooks API rate limit exceeded'' RATE_LIMIT
                      (Some 429) error)
          else (case (if isObject error
                      then jsString (orElse (getProp error ''message'') (JStr []))
                      else Inr []) of
                  Inl thrown \<Rightarrow> Inl thrown
                | Inr message \<Rightarrow>
                    if isObject error
                       \<and> (strIncludes message ''token expired'' \<or> strIncludes message ''invalid_token'')
                    then Inr (QuickBooksError ''QuickBooks token expired'' TOKEN_EXPIRED
                                (Some 401) error)
                    else Inr (QuickBooksError
                                ''An unexpected error occurred with QuickBooks integration''
                                API_ERROR (Some 500) error)))"

text \<open>
  \<^verbatim>\<open>throw handleQuickBooksError(error)\<close>: the value that is thrown, the normalised error
  or what the normalisation threw itself.
\<close>

definition thrownBy :: "jsval \<Rightarrow> jsval" where
  "thrownBy error = (case handleQuickBooksError error of Inl thrown \<Rightarrow> thrown | Inr e \<Rightarrow> e)"

text \<open>
  The values that convert to a string without fail: no object in them has an own member
  named \<^verbatim>\<open>toString\<close>, and the message of every error instance in them is a string.
\<close>

fun plain :: "jsval \<Rightarrow> bool" where
  "plain (JArr xs) = list_all plain xs"
| "plain (JObj fs) = (''toString'' \<notin> set (map fst fs) \<and> list_all plain (map snd fs))"
| "plain (ErrorV c m) = (case m of JStr s \<Rightarrow> True | _ \<Rightarrow> False)"
| "plain v = True"

section \<open>The client and its environment (src/client.ts, src/oauth.ts, src/types.ts)\<close>

record QuickBooksTokens =
  access_token :: string
  refresh_token :: string
  realm_id :: string
  expires_at :: int
  token_type :: "string option"

record OAuthTokenResponse =
  resp_access_token :: string
  resp_refresh_token :: string
  resp_token_type :: string
  expires_in :: int
  x_refresh_token_expires_in :: int

datatype environment = sandbox | production

text \<open>
  What \<^verbatim>\<open>fetch\<close> is given. A JSON body stands for the text \<^verbatim>\<open>JSON.stringify\<close> makes
  of the value.
\<close>

datatype req_body = NoBody | JsonBody jsval | TextBody string

record http_request =
  url :: string
  httpMethod :: string
  authorization :: string
  accept :: string
  contentType :: "string option"
  reqBody :: req_body

text \<open>
  What \<^verbatim>\<open>fetch\<close> returns: the status, \<^verbatim>\<open>headers.get("Retry-After")\<close> (\<open>None\<close> for
  \<^verbatim>\<open>null\<close>), and what \<^verbatim>\<open>response.json()\<close> gives: the decoded value, or on the left
  the message of the \<^verbatim>\<open>SyntaxError\<close> it rejects with when the body is not JSON.
\<close>

record response =
  status :: int
  retryAfter :: "string option"
  json :: "string + jsval"

definition ok :: "response \<Rightarrow> bool" where
  "ok r = (200 \<le> status r \<and> status r \<le> 299)"

text \<open>\<^verbatim>\<open>fetch\<close> resolves with a response or rejects with a \<^verbatim>\<open>TypeError\<close>.\<close>

datatype api_reply = Reply response | NetworkFailure string

text \<open>
  The token endpoint answers a refresh with an ok response carrying an
  \<^verbatim>\<open>OAuthTokenResponse\<close>, with a response that is not ok (its status, and its body when
  that decodes), or not at all.
\<close>

datatype oauth_reply =
    TokenOk OAuthTokenResponse
  | TokenRejected int "jsval option"
  | TokenNetworkFailure string

text \<open>
  The effects a caller can observe: timers (the delay handed to \<^verbatim>\<open>setTimeout\<close>,
  \<open>None\<close> for \<^verbatim>\<open>NaN\<close>), calls of \<^verbatim>\<open>fetch\<close> on the resource API, calls of
  \<^verbatim>\<open>refreshTokens\<close> (refresh token and realm), and calls of the token store.
\<close>

datatype event =
    Sleep "int option"
  | Fetch http_request
  | Refresh string string
  | GetTokens
  | StoreTokens QuickBooksTokens
  | ClearTokens

text \<open>
  The client instance with everything it talks to. \<open>clock\<close> is \<^verbatim>\<open>Date.now()\<close> in
  milliseconds; only timers advance it. \<open>tokenStore\<close> is the content of the in-memory
  token store of test/integration.ts. \<open>api\<close> gives the reply of the resource API to the
  n-th \<^verbatim>\<open>fetch\<close> as a function of the request, \<open>oauth\<close> the reply of the token endpoint
  to the n-th refresh. The logging hook has no effect on the client and is left out.
\<close>

record world =
  config_environment :: "environment option"
  requestTimestamps :: "int list"
  clock :: int
  tokenStore :: "QuickBooksTokens option"
  api :: "nat \<Rightarrow> http_request \<Rightarrow> api_reply"
  apiCalls :: nat
  oauth :: "nat \<Rightarrow> oauth_reply"
  oauthCalls :: nat
  trace :: "event list"

definition RATE_LIMIT_MAX :: int where
  "RATE_LIMIT_MAX = 500"

definition RATE_LIMIT_WINDOW_MS :: int where
  "RATE_LIMIT_WINDOW_MS = 60 * 1000"

definition MAX_RETRIES :: nat where
  "MAX_RETRIES = 3"

definition INITIAL_RETRY_DELAY_MS :: int where
  "INITIAL_RETRY_DELAY_MS = 1000"

text \<open>
  \<^verbatim>\<open>await new Promise((resolve) => setTimeout(resolve, delay))\<close>: the timer fires after
  the delay it was given; a delay that is negative or \<^verbatim>\<open>NaN\<close> lets no time pass.
\<close>

definition sleep :: "int option \<Rightarrow> world \<Rightarrow> world" where
  "sleep delay w =
     w\<lparr>clock := clock w + (case delay of Some d \<Rightarrow> max 0 d | None \<Rightarrow> 0),
       trace := trace w @ [Sleep delay]\<rparr>"

subsection \<open>The rate governor: checkRateLimit\<close>

definition checkRateLimit :: "world \<Rightarrow> world" where
  "checkRateLimit w =
     (let now = clock w;
          w1 = w\<lparr>requestTimestamps :=
                    filter (\<lambda>ts. now - ts < RATE_LIMIT_WINDOW_MS) (requestTimestamps w)\<rparr>;
          w2 = (if int (length (requestTimestamps w1)) \<ge> RATE_LIMIT_MAX
                then let oldestTimestamp = hd (requestTimestamps w1);
                         waitTime = RATE_LIMIT_WINDOW_MS - (now - oldestTimestamp) + 100
                     in sleep (Some waitTime) w1
                else w1)
      in w2\<lparr>requestTimestamps := requestTimestamps w2 @ [clock w2]\<rparr>)"

subsection \<open>The token store and the token authority\<close>

definition getTokens :: "world \<Rightarrow> QuickBooksTokens option \<times> world" where
  "getTokens w = (tokenStore w, w\<lparr>trace := trace w @ [GetTokens]\<rparr>)"

definition storeTokens :: "QuickBooksTokens \<Rightarrow> world \<Rightarrow> world" where
  "storeTokens tokens w = w\<lparr>tokenStore := Some tokens, trace := trace w @ [StoreTokens tokens]\<rparr>"

definition clearTokens :: "world \<Rightarrow> world" where
  "clearTokens w = w\<lparr>tokenStore := None, trace := trace w @ [ClearTokens]\<rparr>"

text \<open>\<^verbatim>\<open>Math.floor(Date.now() / 1000) + expiresIn\<close>\<close>

definition calculateTokenExpiry :: "int \<Rightarrow> world \<Rightarrow> int" where
  "calculateTokenExpiry expiresIn w = clock w div 1000 + expiresIn"

definition isTokenExpired :: "int \<Rightarrow> int \<Rightarrow> world \<Rightarrow> bool" where
  "isTokenExpired expiresAt bufferSeconds w =
     (let now = clock w div 1000 in now \<ge> expiresAt - bufferSeconds)"

text \<open>
  \<^verbatim>\<open>refreshTokens\<close> posts the refresh token to the token endpoint. A response that is
  not ok is thrown as a \<^verbatim>\<open>QuickBooksError\<close> with the response's status and its body,
  or \<^verbatim>\<open>{}\<close> when the body does not decode.
\<close>

definition refreshTokens ::
  "string \<Rightarrow> string \<Rightarrow> world \<Rightarrow> (jsval + QuickBooksTokens) \<times> world" where
  "refreshTokens refreshToken realmId w =
     (let w1 = w\<lparr>oauthCalls := Suc (oauthCalls w),
                  trace := trace w @ [Refresh refreshToken realmId]\<rparr>
      in case oauth w (oauthCalls w) of
           TokenNetworkFailure msg \<Rightarrow> (Inl (ErrorV TypeError (JStr msg)), w1)
         | TokenRejected st body \<Rightarrow>
             (Inl (QuickBooksError (''Failed to refresh tokens: '' @ showInt st) REFRESH_FAILED
                     (Some st) (case body of Some v \<Rightarrow> v | None \<Rightarrow> JObj [])), w1)
         | TokenOk data \<Rightarrow>
             (Inr \<lparr>access_token = resp_access_token data,
                   refresh_token = resp_refresh_token data,
                   realm_id = realmId,
                   expires_at = calculateTokenExpiry (expires_in data) w1,
                   token_type = Some (resp_token_type data)\<rparr>, w1))"

definition getValidTokens :: "world \<Rightarrow> (jsval + QuickBooksTokens) \<times> world" where
  "getValidTokens w =
     (case getTokens w of
        (None, w1) \<Rightarrow>
          (Inl (QuickBooksError ''No tokens found - please connect to QuickBooks first''
                  UNAUTHORIZED None JUndefined), w1)
      | (Some tokens, w1) \<Rightarrow>
          if isTokenExpired (expires_at tokens) 300 w1
          then (case refreshTokens (refresh_token tokens) (realm_id tokens) w1 of
                  (Inr newTokens, w2) \<Rightarrow> (Inr newTokens, storeTokens newTokens w2)
                | (Inl error, w2) \<Rightarrow>
                    if instanceofQuickBooksError error \<and> getProp error ''status'' = JNum 401
                    then (Inl error, clearTokens w2)
                    else (Inl error, w2))
          else (Inr tokens, w1))"

subsection \<open>The request executor\<close>

definition API_BASE :: "environment \<Rightarrow> string" where
  "API_BASE env =
     (case env of
        sandbox \<Rightarrow> ''https://sandbox-quickbooks.api.intuit.com''
      | production \<Rightarrow> ''https://quickbooks.api.intuit.com'')"

definition fetch :: "http_request \<Rightarrow> world \<Rightarrow> (jsval + response) \<times> world" where
  "fetch req w =
     (let w1 = w\<lparr>apiCalls := Suc (apiCalls w), trace := trace w @ [Fetch req]\<rparr>
      in case api w (apiCalls w) req of
           Reply r \<Rightarrow> (Inr r, w1)
         | NetworkFailure msg \<Rightarrow> (Inl (ErrorV TypeError (JStr msg)), w1))"

text \<open>
  \<^verbatim>\<open>parseInt(s, 10)\<close>: leading white space is skipped, a sign is read, then the longest
  run of decimal digits; \<open>None\<close> is \<^verbatim>\<open>NaN\<close>, the result when there is no digit.
\<close>

definition isSpace :: "char \<Rightarrow> bool" where
  "isSpace c = (c \<in> set [CHR '' '', CHR 0x09, CHR 0x0A, CHR 0x0B, CHR 0x0C, CHR 0x0D])"

definition isDigit :: "char \<Rightarrow> bool" where
  "isDigit c = (c \<in> set ''0123456789'')"

definition digitVal :: "char \<Rightarrow> nat" where
  "digitVal c = length (takeWhile (\<lambda>d. d \<noteq> c) ''0123456789'')"

definition parseInt10 :: "string \<Rightarrow> int option" where
  "parseInt10 s =
     (let t = dropWhile isSpace s;
          negative = (case t of c # r \<Rightarrow> c = CHR ''-'' | [] \<Rightarrow> False);
          u = (case t of c # r \<Rightarrow> if c = CHR ''-'' \<or> c = CHR ''+'' then r else t | [] \<Rightarrow> t);
          ds = takeWhile isDigit u;
          n = int (foldl (\<lambda>a c. 10 * a + digitVal c) 0 ds)
      in if ds = [] then None else Some (if negative then - n else n))"

text \<open>
  \<^verbatim>\<open>{ status: response.status, ...errorData }\<close>: the members of the spread value are
  written over the members already there.
\<close>

definition setProp :: "string \<Rightarrow> jsval \<Rightarrow> (string \<times> jsval) list \<Rightarrow> (string \<times> jsval) list" where
  "setProp k v fs =
     (if k \<in> set (map fst fs) then map (\<lambda>(k', v'). if k' = k then (k', v) else (k', v')) fs
      else fs @ [(k, v)])"

definition spreadInto :: "(string \<times> jsval) list \<Rightarrow> jsval \<Rightarrow> (string \<times> jsval) list" where
  "spreadInto fs src = foldl (\<lambda>acc (k, v). setProp k v acc) fs (ownProps src)"

text \<open>\<^verbatim>\<open>await response.json().catch(() => ({}))\<close>\<close>

definition errorDataOf :: "response \<Rightarrow> jsval" where
  "errorDataOf r = (case json r of Inr v \<Rightarrow> v | Inl msg \<Rightarrow> JObj [])"

text \<open>
  The end of an attempt of \<^verbatim>\<open>request\<close> that is not retried: a response that is not ok
  is thrown as \<^verbatim>\<open>{ status, ...errorData }\<close>, an ok response gives its decoded body, and
  whatever is thrown inside the \<^verbatim>\<open>try\<close> goes through \<^verbatim>\<open>handleQuickBooksError\<close>.
\<close>

definition settle :: "response \<Rightarrow> jsval + jsval" where
  "settle r =
     (if \<not> ok r
      then let errorData = errorDataOf r
           in Inl (thrownBy (JObj (spreadInto [(''status'', JNum (status r))] errorData)))
      else case json r of
             Inr v \<Rightarrow> Inr v
           | Inl msg \<Rightarrow> Inl (thrownBy (ErrorV SyntaxError (JStr msg))))"

text \<open>The call \<^verbatim>\<open>request\<close> hands to \<^verbatim>\<open>fetch\<close>.\<close>

definition apiRequest ::
  "environment option \<Rightarrow> QuickBooksTokens \<Rightarrow> string \<Rightarrow> string \<Rightarrow> jsval \<Rightarrow> http_request" where
  "apiRequest environment tokens method endpoint body =
     (let env = (case environment of Some e \<Rightarrow> e | None \<Rightarrow> production);
          baseUrl = API_BASE env
      in \<lparr>url = baseUrl @ ''/v3/company/'' @ realm_id tokens @ endpoint,
          httpMethod = method,
          authorization = ''Bearer '' @ access_token tokens,
          accept = ''application/json'',
          contentType = (if truthy body then Some ''application/json'' else None),
          reqBody = (if truthy body then JsonBody body else NoBody)\<rparr>)"

text \<open>
  The delay before a retry of a 429: \<^verbatim>\<open>retryAfter ? parseInt(retryAfter, 10) * 1000
  : INITIAL_RETRY_DELAY_MS * Math.pow(2, retryCount)\<close>.
\<close>

definition retryDelay :: "response \<Rightarrow> nat \<Rightarrow> int option" where
  "retryDelay r retryCount =
     (case retryAfter r of
        Some s \<Rightarrow>
          if s \<noteq> [] then map_option (\<lambda>n. n * 1000) (parseInt10 s)
          else Some (INITIAL_RETRY_DELAY_MS * 2 ^ retryCount)
      | None \<Rightarrow> Some (INITIAL_RETRY_DELAY_MS * 2 ^ retryCount))"

text \<open>
  \<^verbatim>\<open>request\<close>. The rate check and \<^verbatim>\<open>getValidTokens\<close> run before the \<^verbatim>\<open>try\<close>, so what
  they throw is not normalised. The result of a retry is returned as it is.
\<close>

function request ::
  "string \<Rightarrow> string \<Rightarrow> jsval \<Rightarrow> nat \<Rightarrow> world \<Rightarrow> (jsval + jsval) \<times> world" where
  "request method endpoint body retryCount w =
     (let w1 = checkRateLimit w
      in case getValidTokens w1 of
           (Inl error, w2) \<Rightarrow> (Inl error, w2)
         | (Inr tokens, w2) \<Rightarrow>
             (case fetch (apiRequest (config_environment w2) tokens method endpoint body) w2 of
                (Inl error, w3) \<Rightarrow> (Inl (thrownBy error), w3)
              | (Inr response, w3) \<Rightarrow>
                  if status response = 429 \<and> retryCount < MAX_RETRIES
                  then let delay = retryDelay response retryCount;
                           w4 = sleep delay w3
                       in request method endpoint body (retryCount + 1) w4
                  else if status response = 401 \<and> retryCount < 1
                  then (case getTokens w3 of
                          (Some tokens', w4) \<Rightarrow>
                            (case refreshTokens (refresh_token tokens') (realm_id tokens') w4 of
                               (Inl error, w5) \<Rightarrow> (Inl (thrownBy error), w5)
                             | (Inr newTokens, w5) \<Rightarrow>
                                 request method endpoint body (retryCount + 1)
                                   (storeTokens newTokens w5))
                        | (None, w4) \<Rightarrow> (settle response, w4))
                  else (settle response, w3)))"
  by pat_completeness auto
termination
  by (relation "measure (\<lambda>(method, endpoint, body, retryCount, w). MAX_RETRIES - retryCount)")
     (auto simp add: MAX_RETRIES_def)

declare request.simps [simp del]

subsection \<open>The query engine\<close>

definition metadataKeys :: "string list" where
  "metadataKeys = [''startPosition'', ''maxResults'', ''totalCount'']"

text \<open>\<^verbatim>\<open>Object.keys(v)\<close>, which throws a \<^verbatim>\<open>TypeError\<close> on \<^verbatim>\<open>undefined\<close> and \<^verbatim>\<open>null\<close>.\<close>

definition objectKeys :: "jsval \<Rightarrow> jsval + string list" where
  "objectKeys v =
     (if v = JUndefined \<or> v = JNull
      then Inl (ErrorV TypeError (JStr ''Cannot convert undefined or null to object''))
      else Inr (map fst (ownProps v)))"

text \<open>
  The unwrapping of the envelope, the same lines in \<^verbatim>\<open>query\<close> and \<^verbatim>\<open>queryAll\<close>: the
  keys of \<^verbatim>\<open>data.QueryResponse\<close> that are not metadata keys, the first of them as
  \<^verbatim>\<open>entityKey\<close>, and \<^verbatim>\<open>entityKey ? data.QueryResponse[entityKey] : []\<close>.
\<close>

definition entityValue :: "jsval \<Rightarrow> jsval + jsval" where
  "entityValue data =
     (if data = JUndefined \<or> data = JNull
      then Inl (ErrorV TypeError (JStr ''Cannot read properties of null''))
      else let queryResponse = getProp data ''QueryResponse''
           in case objectKeys queryResponse of
                Inl error \<Rightarrow> Inl error
              | Inr ks \<Rightarrow>
                  (case filter (\<lambda>k. k \<notin> set metadataKeys) ks of
                     [] \<Rightarrow> Inr (JArr [])
                   | entityKey # rest \<Rightarrow>
                       if entityKey \<noteq> [] then Inr (getProp queryResponse entityKey)
                       else Inr (JArr [])))"

text \<open>
  \<^verbatim>\<open>allResults.push(...pageResults)\<close> iterates the page: an array gives its elements, a
  string its characters, and any other value is not iterable.
\<close>

definition spreadItems :: "jsval \<Rightarrow> jsval + jsval list" where
  "spreadItems v =
     (case v of
        JArr xs \<Rightarrow> Inr xs
      | JStr s \<Rightarrow> Inr (map (\<lambda>c. JStr [c]) s)
      | _ \<Rightarrow> Inl (ErrorV TypeError (JStr ''pageResults is not iterable'')))"

text \<open>The call \<^verbatim>\<open>query\<close> and \<^verbatim>\<open>queryAll\<close> hand to \<^verbatim>\<open>fetch\<close>.\<close>

definition queryRequest :: "environment option \<Rightarrow> QuickBooksTokens \<Rightarrow> string \<Rightarrow> http_request" where
  "queryRequest environment tokens sql =
     (let env = (case environment of Some e \<Rightarrow> e | None \<Rightarrow> production);
          baseUrl = API_BASE env
      in \<lparr>url = baseUrl @ ''/v3/company/'' @ realm_id tokens @ ''/query'',
          httpMethod = ''POST'',
          authorization = ''Bearer '' @ access_token tokens,
          accept = ''application/json'',
          contentType = Some ''application/text'',
          reqBody = TextBody sql\<rparr>)"

text \<open>
  \<^verbatim>\<open>throw handleQuickBooksError({ status: fetchResponse.status, ...errorData })\<close>
\<close>

definition queryFailure :: "response \<Rightarrow> jsval" where
  "queryFailure r =
     (let errorData = errorDataOf r
      in thrownBy (JObj (spreadInto [(''status'', JNum (status r))] errorData)))"

text \<open>
  \<^verbatim>\<open>query\<close> has no \<^verbatim>\<open>try\<close>: a rejected \<^verbatim>\<open>fetch\<close>, a body that does not decode and a
  malformed envelope throw what they throw.
\<close>

definition query :: "string \<Rightarrow> world \<Rightarrow> (jsval + jsval) \<times> world" where
  "query sql w =
     (case getValidTokens w of
        (Inl error, w1) \<Rightarrow> (Inl error, w1)
      | (Inr tokens, w1) \<Rightarrow>
          (let w2 = checkRateLimit w1
           in case fetch (queryRequest (config_environment w2) tokens sql) w2 of
                (Inl error, w3) \<Rightarrow> (Inl error, w3)
              | (Inr fetchResponse, w3) \<Rightarrow>
                  if \<not> ok fetchResponse then (Inl (queryFailure fetchResponse), w3)
                  else (case json fetchResponse of
                          Inl msg \<Rightarrow> (Inl (ErrorV SyntaxError (JStr msg)), w3)
                        | Inr data \<Rightarrow>
                            (case entityValue data of
                               Inl error \<Rightarrow> (Inl error, w3)
                             | Inr v \<Rightarrow> (Inr v, w3)))))"

definition paginatedSql :: "string \<Rightarrow> int \<Rightarrow> int \<Rightarrow> string" where
  "paginatedSql sql startPosition maxResults =
     sql @ '' STARTPOSITION '' @ showInt startPosition @ '' MAXRESULTS '' @ showInt maxResults"

text \<open>
  The \<^verbatim>\<open>while (true)\<close> loop of \<^verbatim>\<open>queryAll\<close>, with \<^verbatim>\<open>startPosition\<close> and
  \<^verbatim>\<open>allResults\<close> as arguments. \<open>None\<close> is a loop that never ends.
\<close>

partial_function (option) queryAllLoop ::
  "string \<Rightarrow> int \<Rightarrow> int \<Rightarrow> jsval list \<Rightarrow> world \<Rightarrow> ((jsval + jsval list) \<times> world) option" where
  "queryAllLoop sql maxResults startPosition allResults w =
     (case getValidTokens w of
        (Inl error, w1) \<Rightarrow> Some (Inl error, w1)
      | (Inr tokens, w1) \<Rightarrow>
          (let w2 = checkRateLimit w1
           in case fetch (queryRequest (config_environment w2) tokens
                            (paginatedSql sql startPosition maxResults)) w2 of
                (Inl error, w3) \<Rightarrow> Some (Inl error, w3)
              | (Inr fetchResponse, w3) \<Rightarrow>
                  if \<not> ok fetchResponse then Some (Inl (queryFailure fetchResponse), w3)
                  else (case json fetchResponse of
                          Inl msg \<Rightarrow> Some (Inl (ErrorV SyntaxError (JStr msg)), w3)
                        | Inr data \<Rightarrow>
                            (case entityValue data of
                               Inl error \<Rightarrow> Some (Inl error, w3)
                             | Inr pageResults \<Rightarrow>
                                 (case spreadItems pageResults of
                                    Inl error \<Rightarrow> Some (Inl error, w3)
                                  | Inr items \<Rightarrow>
                                      if int (length items) < maxResults
                                      then Some (Inr (allResults @ items), w3)
                                      else queryAllLoop sql maxResults
                                             (startPosition + maxResults)
                                             (allResults @ items) w3)))))"

definition queryAll ::
  "string \<Rightarrow> int \<Rightarrow> world \<Rightarrow> ((jsval + jsval list) \<times> world) option" where
  "queryAll sql pageSize w =
     (let maxResults = min pageSize 1000 in queryAllLoop sql maxResults 1 [] w)"

subsection \<open>Observations on the trace\<close>

fun isRefresh :: "event \<Rightarrow> bool" where
  "isRefresh (Refresh rt realm) = True"
| "isRefresh _ = False"

fun isFetch :: "event \<Rightarrow> bool" where
  "isFetch (Fetch req) = True"
| "isFetch _ = False"

fun isSleep :: "event \<Rightarrow> bool" where
  "isSleep (Sleep d) = True"
| "isSleep _ = False"

fun isStore :: "event \<Rightarrow> bool" where
  "isStore (StoreTokens t) = True"
| "isStore _ = False"

definition refreshCalls :: "world \<Rightarrow> nat" where
  "refreshCalls w = length (filter isRefresh (trace w))"

definition fetchCalls :: "world \<Rightarrow> nat" where
  "fetchCalls w = length (filter isFetch (trace w))"

definition storeCalls :: "world \<Rightarrow> nat" where
  "storeCalls w = length (filter isStore (trace w))"

definition clearCalls :: "world \<Rightarrow> nat" where
  "clearCalls w = length (filter (\<lambda>e. e = ClearTokens) (trace w))"

definition sleeps :: "world \<Rightarrow> event list" where
  "sleeps w = filter isSleep (trace w)"

text \<open>The texts of the queries sent so far, in order.\<close>

fun queryText :: "event \<Rightarrow> string list" where
  "queryText (Fetch req) = (case reqBody req of TextBody t \<Rightarrow> [t] | _ \<Rightarrow> [])"
| "queryText _ = []"

definition queryTexts :: "world \<Rightarrow> string list" where
  "queryTexts w = concat (map queryText (trace w))"

subsection \<open>Assumptions on the environment\<close>

text \<open>
  The store holds credentials and the token endpoint grants every refresh from now on.
\<close>

definition authorized :: "world \<Rightarrow> bool" where
  "authorized w \<longleftrightarrow> tokenStore w \<noteq> None \<and> (\<forall>n \<ge> oauthCalls w. \<exists>d. oauth w n = TokenOk d)"

text \<open>The items \<^verbatim>\<open>queryAll\<close> takes from an ok response.\<close>

definition pageItems :: "response \<Rightarrow> jsval + jsval list" where
  "pageItems r =
     (case json r of
        Inl msg \<Rightarrow> Inl (ErrorV SyntaxError (JStr msg))
      | Inr data \<Rightarrow> (case entityValue data of Inl error \<Rightarrow> Inl error | Inr v \<Rightarrow> spreadItems v))"

text \<open>
  The API answers its n-th call, when that call carries the query \<open>text\<close>, with an ok
  response whose envelope holds the page \<open>pg\<close>.
\<close>

definition servesPage ::
  "(nat \<Rightarrow> http_request \<Rightarrow> api_reply) \<Rightarrow> nat \<Rightarrow> string \<Rightarrow> jsval list \<Rightarrow> bool" where
  "servesPage a n text pg \<longleftrightarrow>
     (\<forall>req. reqBody req = TextBody text \<longrightarrow> (\<exists>r. a n req = Reply r \<and> ok r \<and> pageItems r = Inr pg))"

text \<open>
  The API answers the calls from the n-th on with the given pages, one after the other,
  when they ask for the positions \<open>s\<close>, \<open>s + p\<close>, \<open>s + 2 p\<close>, ... with page size \<open>p\<close>.
\<close>

fun servesPages ::
  "(nat \<Rightarrow> http_request \<Rightarrow> api_reply) \<Rightarrow> nat \<Rightarrow> string \<Rightarrow> int \<Rightarrow> int \<Rightarrow> jsval list list \<Rightarrow> bool" where
  "servesPages a n sql s p [] = True"
| "servesPages a n sql s p (pg # rest) =
     (servesPage a n (paginatedSql sql s p) pg \<and> servesPages a (Suc n) sql (s + p) p rest)"

text \<open>The timestamps a check keeps: those less than the window old.\<close>

definition inWindow :: "world \<Rightarrow> int list" where
  "inWindow w = filter (\<lambda>ts. clock w - ts < 60000) (requestTimestamps w)"

section \<open>Scenarios\<close>

text \<open>A client with an empty token store whose network is down.\<close>

definition offline :: world where
  "offline =
     \<lparr>config_environment = Some sandbox, requestTimestamps = [], clock = 2000,
      tokenStore = None, api = (\<lambda>n req. NetworkFailure ''fetch failed''), apiCalls = 0,
      oauth = (\<lambda>n. TokenNetworkFailure ''fetch failed''), oauthCalls = 0, trace = []\<rparr>"

text \<open>The same client after 500 requests at time 1000, and after two.\<close>

definition saturated :: world where
  "saturated = offline\<lparr>requestTimestamps := replicate 500 1000\<rparr>"

definition idle :: world where
  "idle = offline\<lparr>requestTimestamps := [1000, 1500]\<rparr>"

text \<open>
  A connected client: credentials that expire at second 5000, the clock at second 1000,
  and a token endpoint that grants every refresh with a token good for an hour.
\<close>

definition credentials :: QuickBooksTokens where
  "credentials =
     \<lparr>access_token = ''at0'', refresh_token = ''rt0'', realm_id = ''9130'',
      expires_at = 5000, token_type = Some ''bearer''\<rparr>"

definition granted :: OAuthTokenResponse where
  "granted =
     \<lparr>resp_access_token = ''at1'', resp_refresh_token = ''rt1'', resp_token_type = ''bearer'',
      expires_in = 3600, x_refresh_token_expires_in = 8726400\<rparr>"

definition connected :: world where
  "connected =
     offline\<lparr>clock := 1000000, tokenStore := Some credentials, oauth := (\<lambda>n. TokenOk granted)\<rparr>"

text \<open>The same client with credentials that expire exactly 300 seconds from now.\<close>

definition boundary :: world where
  "boundary = connected\<lparr>tokenStore := Some (credentials\<lparr>expires_at := 1300\<rparr>)\<rparr>"

text \<open>Replies of the resource API without a Retry-After header.\<close>

definition reply :: "int \<Rightarrow> jsval \<Rightarrow> api_reply" where
  "reply st body = Reply \<lparr>status = st, retryAfter = None, json = Inr body\<rparr>"

definition invoice :: jsval where
  "invoice = JObj [(''Invoice'', JObj [(''Id'', JStr ''1'')])]"

text \<open>
  An API that answers 429, then 401, then 200; and one that answers 401, then 429 three
  times, then 200. The bodies of the failures are empty objects.
\<close>

definition throttledThenUnauthorized :: world where
  "throttledThenUnauthorized =
     connected\<lparr>api := (\<lambda>n req. if n = 0 then reply 429 (JObj [])
                             else if n = 1 then reply 401 (JObj [])
                             else reply 200 invoice)\<rparr>"

definition unauthorizedThenThrottled :: world where
  "unauthorizedThenThrottled =
     connected\<lparr>api := (\<lambda>n req. if n = 0 then reply 401 (JObj [])
                             else if n \<le> 3 then reply 429 (JObj [])
                             else reply 200 invoice)\<rparr>"

text \<open>The world of the first scenario after its first \<^verbatim>\<open>fetch\<close>.\<close>

definition afterFirstFetch :: world where
  "afterFirstFetch =
     snd (fetch (apiRequest (Some sandbox) credentials ''GET'' ''/invoice/1'' JUndefined)
            (snd (getValidTokens (checkRateLimit throttledThenUnauthorized))))"

text \<open>
  An API that answers every call with 401 while the token endpoint rejects the refresh
  token with 401.
\<close>

definition revoked :: world where
  "revoked =
     connected\<lparr>api := (\<lambda>n req. reply 401 (JObj [])),
               oauth := (\<lambda>n. TokenRejected 401 (Some (JObj [(''error'', JStr ''invalid_grant'')])))\<rparr>"

text \<open>
  APIs whose error bodies have a member named \<^verbatim>\<open>status\<close>: one that answers every call
  with 429, one that answers every call with 401.
\<close>

definition throttled :: world where
  "throttled = connected\<lparr>api := (\<lambda>n req. reply 429 (JObj [(''status'', JStr ''throttled'')]))\<rparr>"

definition unauthorized :: world where
  "unauthorized = connected\<lparr>api := (\<lambda>n req. reply 401 (JObj [(''status'', JStr ''error'')]))\<rparr>"

text \<open>An API that answers every call with 429, and one whose first answer is 401.\<close>

definition rateLimited :: world where
  "rateLimited = connected\<lparr>api := (\<lambda>n req. reply 429 (JObj []))\<rparr>"

definition sessionExpired :: world where
  "sessionExpired =
     connected\<lparr>api := (\<lambda>n req. if n = 0 then reply 401 (JObj []) else reply 200 invoice)\<rparr>"

text \<open>
  A company with five invoices. Its API reads the position and the page size from the end
  of the query text and answers with that slice of the data in an envelope.
\<close>

definition records :: "jsval list" where
  "records = map (\<lambda>i. JObj [(''Id'', JStr i)]) [''1'', ''2'', ''3'', ''4'', ''5'']"

definition envelope :: "jsval list \<Rightarrow> int \<Rightarrow> jsval" where
  "envelope items s =
     JObj [(''QueryResponse'',
            JObj [(''Invoice'', JArr items), (''startPosition'', JNum s),
                  (''maxResults'', JNum (int (length items))), (''totalCount'', JNum 0)]),
           (''time'', JStr ''2026-01-01T00:00:00Z'')]"

fun splitSpaces :: "string \<Rightarrow> string list" where
  "splitSpaces [] = [[]]"
| "splitSpaces (c # cs) =
     (if c = CHR '' '' then [] # splitSpaces cs
      else (case splitSpaces cs of w # ws \<Rightarrow> (c # w) # ws | [] \<Rightarrow> [[c]]))"

definition datasetServer :: "jsval list \<Rightarrow> http_request \<Rightarrow> api_reply" where
  "datasetServer ds req =
     (case reqBody req of
        TextBody text \<Rightarrow>
          (case rev (splitSpaces text) of
             m # kw2 # n # kw1 # front \<Rightarrow>
               if kw1 = ''STARTPOSITION'' \<and> kw2 = ''MAXRESULTS''
               then (case (parseInt10 n, parseInt10 m) of
                       (Some s, Some k) \<Rightarrow>
                         reply 200 (envelope (take (nat k) (drop (nat (s - 1)) ds)) s)
                     | _ \<Rightarrow> reply 400 (JObj []))
               else reply 400 (JObj [])
           | _ \<Rightarrow> reply 400 (JObj []))
      | _ \<Rightarrow> reply 400 (JObj []))"

definition bookkeeping :: world where
  "bookkeeping = connected\<lparr>api := (\<lambda>n. datasetServer records)\<rparr>"

text \<open>A company without invoices: every page is empty.\<close>

definition emptyBooks :: world where
  "emptyBooks = connected\<lparr>api := (\<lambda>n req. reply 200 (JObj [(''QueryResponse'', JObj [])]))\<rparr>"

section \<open>Normalisation of errors\<close>















text \<open>
  A value on which the conversion throws can come from the network: \<^verbatim>\<open>request\<close> ends an
  attempt on a response with status 500 and the body \<^verbatim>\<open>{"message":{"toString":1}}\<close> by
  throwing the \<^verbatim>\<open>TypeError\<close> of the conversion.
\<close>

lemma settle_conversion_error:
  "settle \<lparr>status = 500, retryAfter = None,
           json = Inr (JObj [(''message'', JObj [(''toString'', JNum 1)])])\<rparr>
     = Inl cannotConvert"
  by (simp add: settle_def ok_def errorDataOf_def spreadInto_def setProp_def thrownBy_def
        handleQuickBooksError_def orElse_def)

section \<open>The rate governor\<close>

lemma inWindow_drops_old:
  "ts \<in> set (requestTimestamps w) \<Longrightarrow> clock w - ts \<ge> 60000 \<Longrightarrow> ts \<notin> set (inWindow w)"
  by (simp add: inWindow_def)

lemma inWindow_head_oldest:
  assumes "sorted (requestTimestamps w)" and "inWindow w \<noteq> []"
  shows "hd (inWindow w) = Min (set (inWindow w))"
proof -
  have "sorted (inWindow w)"
    using assms(1) by (simp add: inWindow_def sorted_wrt_filter)
  with assms(2) show ?thesis
    by (cases "inWindow w") (auto intro!: Min_eqI [symmetric])
qed

lemma checkRateLimit_full:
  assumes "500 \<le> length (inWindow w)"
  shows "checkRateLimit w =
           w\<lparr>requestTimestamps := inWindow w @ [clock w + (60000 - (clock w - hd (inWindow w)) + 100)],
             clock := clock w + (60000 - (clock w - hd (inWindow w)) + 100),
             trace := trace w @ [Sleep (Some (60000 - (clock w - hd (inWindow w)) + 100))]\<rparr>"
proof -
  from assms have ne: "inWindow w \<noteq> []" by auto
  then have "hd (inWindow w) \<in> set (inWindow w)" by simp
  then have "clock w - hd (inWindow w) < 60000" by (simp add: inWindow_def)
  then have pos: "max 0 (60000 - (clock w - hd (inWindow w)) + 100)
                    = 60000 - (clock w - hd (inWindow w)) + 100" by simp
  show ?thesis
    using assms pos
    by (simp add: checkRateLimit_def Let_def sleep_def RATE_LIMIT_MAX_def
          RATE_LIMIT_WINDOW_MS_def inWindow_def)
qed

lemma checkRateLimit_free:
  assumes "length (inWindow w) < 500"
  shows "checkRateLimit w = w\<lparr>requestTimestamps := inWindow w @ [clock w]\<rparr>"
  using assms
  by (simp add: checkRateLimit_def Let_def RATE_LIMIT_MAX_def RATE_LIMIT_WINDOW_MS_def
        inWindow_def)

text \<open>
  C8. A call of \<^verbatim>\<open>checkRateLimit\<close> discards every recorded timestamp that is 60000 ms
  old or older; when 500 or more timestamps remain it sleeps exactly
  60000 - (now - oldest) + 100 ms, the oldest being the first that remains (the least one
  when the timestamps are in the order they were recorded), and otherwise it sleeps not at
  all; in both cases it then appends the time after the wait as the new timestamp.
\<close>

theorem checkRateLimit_window:
  "(\<forall>ts \<in> set (requestTimestamps w). clock w - ts \<ge> 60000 \<longrightarrow> ts \<notin> set (inWindow w))
   \<and> (500 \<le> length (inWindow w) \<longrightarrow>
        trace (checkRateLimit w)
          = trace w @ [Sleep (Some (60000 - (clock w - hd (inWindow w)) + 100))]
        \<and> clock (checkRateLimit w) = clock w + (60000 - (clock w - hd (inWindow w)) + 100)
        \<and> (sorted (requestTimestamps w) \<longrightarrow> hd (inWindow w) = Min (set (inWindow w))))
   \<and> (length (inWindow w) < 500 \<longrightarrow>
        trace (checkRateLimit w) = trace w \<and> clock (checkRateLimit w) = clock w)
   \<and> requestTimestamps (checkRateLimit w) = inWindow w @ [clock (checkRateLimit w)]"
proof -
  have old: "\<forall>ts \<in> set (requestTimestamps w). clock w - ts \<ge> 60000 \<longrightarrow> ts \<notin> set (inWindow w)"
    using inWindow_drops_old by blast
  have full: "500 \<le> length (inWindow w) \<longrightarrow>
        trace (checkRateLimit w)
          = trace w @ [Sleep (Some (60000 - (clock w - hd (inWindow w)) + 100))]
        \<and> clock (checkRateLimit w) = clock w + (60000 - (clock w - hd (inWindow w)) + 100)
        \<and> (sorted (requestTimestamps w) \<longrightarrow> hd (inWindow w) = Min (set (inWindow w)))"
  proof
    assume a: "500 \<le> length (inWindow w)"
    then have "inWindow w \<noteq> []" by auto
    then show "trace (checkRateLimit w)
          = trace w @ [Sleep (Some (60000 - (clock w - hd (inWindow w)) + 100))]
        \<and> clock (checkRateLimit w) = clock w + (60000 - (clock w - hd (inWindow w)) + 100)
        \<and> (sorted (requestTimestamps w) \<longrightarrow> hd (inWindow w) = Min (set (inWindow w)))"
      using inWindow_head_oldest [of w] by (simp add: checkRateLimit_full [OF a])
  qed
  have free: "length (inWindow w) < 500 \<longrightarrow>
        trace (checkRateLimit w) = trace w \<and> clock (checkRateLimit w) = clock w"
    by (simp add: checkRateLimit_free)
  have app: "requestTimestamps (checkRateLimit w) = inWindow w @ [clock (checkRateLimit w)]"
  proof (cases "500 \<le> length (inWindow w)")
    case True
    then show ?thesis by (simp add: checkRateLimit_full)
  next
    case False
    then show ?thesis by (simp add: checkRateLimit_free)
  qed
  from old full free app show ?thesis by blast
qed

theorem checkRateLimit_window_witness:
  "500 \<le> length (inWindow saturated)
   \<and> trace (checkRateLimit saturated) = [Sleep (Some 59100)]
   \<and> clock (checkRateLimit saturated) = 61100
   \<and> requestTimestamps (checkRateLimit saturated) = replicate 500 1000 @ [61100]
   \<and> length (inWindow idle) < 500
   \<and> trace (checkRateLimit idle) = []
   \<and> requestTimestamps (checkRateLimit idle) = [1000, 1500, 2000]"
  using checkRateLimit_window [of saturated] checkRateLimit_window [of idle]
  by (simp add: saturated_def idle_def offline_def inWindow_def)

section \<open>The token authority\<close>

lemma getValidTokens_fresh:
  "tokenStore w = Some t \<Longrightarrow> clock w div 1000 + 300 < expires_at t \<Longrightarrow>
   getValidTokens w = (Inr t, w\<lparr>trace := trace w @ [GetTokens]\<rparr>)"
  by (simp add: getValidTokens_def getTokens_def isTokenExpired_def)

lemma getValidTokens_stale_refreshes:
  "tokenStore w = Some t \<Longrightarrow> expires_at t \<le> clock w div 1000 + 300 \<Longrightarrow>
   refreshCalls (snd (getValidTokens w)) = Suc (refreshCalls w)"
  by (auto simp add: getValidTokens_def getTokens_def isTokenExpired_def refreshTokens_def
        Let_def refreshCalls_def storeTokens_def clearTokens_def split: oauth_reply.splits)

lemma getValidTokens_stale_granted:
  "tokenStore w = Some t \<Longrightarrow> expires_at t \<le> clock w div 1000 + 300 \<Longrightarrow>
   oauth w (oauthCalls w) = TokenOk d \<Longrightarrow>
   fst (getValidTokens w) =
     Inr \<lparr>access_token = resp_access_token d, refresh_token = resp_refresh_token d,
          realm_id = realm_id t, expires_at = clock w div 1000 + expires_in d,
          token_type = Some (resp_token_type d)\<rparr>
   \<and> tokenStore (snd (getValidTokens w)) =
     Some \<lparr>access_token = resp_access_token d, refresh_token = resp_refresh_token d,
           realm_id = realm_id t, expires_at = clock w div 1000 + expires_in d,
           token_type = Some (resp_token_type d)\<rparr>"
  by (simp add: getValidTokens_def getTokens_def isTokenExpired_def refreshTokens_def
        Let_def storeTokens_def calculateTokenExpiry_def)

text \<open>
  C2, as the spec states it, fails at the boundary: credentials that expire exactly 300
  seconds from now are refreshed, since \<^verbatim>\<open>isTokenExpired\<close> tests
  \<^verbatim>\<open>now >= expiresAt - bufferSeconds\<close>.
\<close>

theorem getValidTokens_boundary_counterexample:
  "tokenStore boundary = Some (credentials\<lparr>expires_at := 1300\<rparr>)
   \<and> clock boundary div 1000 + 300 = 1300
   \<and> refreshCalls boundary = 0
   \<and> refreshCalls (snd (getValidTokens boundary)) = 1"
  by (simp add: boundary_def connected_def offline_def credentials_def granted_def
        getValidTokens_def getTokens_def isTokenExpired_def refreshTokens_def Let_def
        refreshCalls_def storeTokens_def calculateTokenExpiry_def)

text \<open>
  C2, amended. For stored credentials \<open>t\<close>, \<^verbatim>\<open>getValidTokens\<close> calls the token endpoint
  exactly when \<open>expires_at t \<le> now + 300\<close> (in seconds), the boundary included, and then
  returns and stores the refreshed credentials when the endpoint grants them; when
  \<open>expires_at t > now + 300\<close> it returns the stored credentials and its only effect is the
  one read of the store.
\<close>

theorem getValidTokens_refresh_iff:
  assumes "tokenStore w = Some t"
  shows "(refreshCalls (snd (getValidTokens w)) = Suc (refreshCalls w)
            \<longleftrightarrow> expires_at t \<le> clock w div 1000 + 300)
         \<and> (clock w div 1000 + 300 < expires_at t \<longrightarrow>
              getValidTokens w = (Inr t, w\<lparr>trace := trace w @ [GetTokens]\<rparr>))
         \<and> (expires_at t \<le> clock w div 1000 + 300 \<and> oauth w (oauthCalls w) = TokenOk d \<longrightarrow>
              fst (getValidTokens w) =
                Inr \<lparr>access_token = resp_access_token d, refresh_token = resp_refresh_token d,
                     realm_id = realm_id t, expires_at = clock w div 1000 + expires_in d,
                     token_type = Some (resp_token_type d)\<rparr>
              \<and> tokenStore (snd (getValidTokens w)) =
                Some \<lparr>access_token = resp_access_token d, refresh_token = resp_refresh_token d,
                      realm_id = realm_id t, expires_at = clock w div 1000 + expires_in d,
                      token_type = Some (resp_token_type d)\<rparr>)"
proof (cases "expires_at t \<le> clock w div 1000 + 300")
  case True
  then show ?thesis
    using getValidTokens_stale_refreshes [OF assms True]
      getValidTokens_stale_granted [OF assms True] by simp
next
  case False
  then have fresh: "clock w div 1000 + 300 < expires_at t" by simp
  have "refreshCalls (snd (getValidTokens w)) = refreshCalls w"
    by (simp add: getValidTokens_fresh [OF assms fresh] refreshCalls_def)
  then show ?thesis
    using False getValidTokens_fresh [OF assms fresh] by simp
qed

theorem getValidTokens_refresh_iff_witness:
  "tokenStore boundary = Some (credentials\<lparr>expires_at := 1300\<rparr>)
   \<and> refreshCalls (snd (getValidTokens boundary)) = Suc (refreshCalls boundary)
   \<and> fst (getValidTokens boundary) =
       Inr \<lparr>access_token = ''at1'', refresh_token = ''rt1'', realm_id = ''9130'',
            expires_at = 4600, token_type = Some ''bearer''\<rparr>
   \<and> tokenStore connected = Some credentials
   \<and> getValidTokens connected = (Inr credentials, connected\<lparr>trace := [GetTokens]\<rparr>)"
  using getValidTokens_refresh_iff [of boundary "credentials\<lparr>expires_at := 1300\<rparr>" granted]
    getValidTokens_refresh_iff [of connected credentials granted]
  by (simp add: boundary_def connected_def offline_def credentials_def granted_def)

section \<open>The request executor\<close>

lemmas scenario_defs =
  reply_def invoice_def connected_def offline_def credentials_def granted_def

lemmas client_defs =
  checkRateLimit_def getValidTokens_def getTokens_def isTokenExpired_def
  fetch_def apiRequest_def API_BASE_def retryDelay_def sleep_def settle_def ok_def
  errorDataOf_def spreadInto_def setProp_def handleQuickBooksError_def thrownBy_def
  messageIncludes_def orElse_def
  MAX_RETRIES_def INITIAL_RETRY_DELAY_MS_def RATE_LIMIT_MAX_def RATE_LIMIT_WINDOW_MS_def
  refreshTokens_def storeTokens_def clearTokens_def calculateTokenExpiry_def Let_def
  showInt_def showNat.simps

lemmas trace_defs = fetchCalls_def sleeps_def refreshCalls_def storeCalls_def clearCalls_def

lemma request_retry_429:
  assumes "getValidTokens (checkRateLimit w) = (Inr t, w2)"
    and "fetch (apiRequest (config_environment w2) t m e b) w2 = (Inr r, w3)"
    and "status r = 429" and "k < 3"
  shows "request m e b k w = request m e b (k + 1) (sleep (retryDelay r k) w3)"
  using assms by (subst request.simps) (simp add: MAX_RETRIES_def Let_def)

lemma request_retry_401:
  assumes "getValidTokens (checkRateLimit w) = (Inr t, w2)"
    and "fetch (apiRequest (config_environment w2) t m e b) w2 = (Inr r, w3)"
    and "status r = 401" and "k = 0"
    and "tokenStore w3 = Some t'"
    and "refreshTokens (refresh_token t') (realm_id t') (snd (getTokens w3)) = (Inr nt, w5)"
  shows "request m e b k w = request m e b (k + 1) (storeTokens nt w5)"
  using assms by (subst request.simps) (simp add: MAX_RETRIES_def Let_def getTokens_def)

lemma request_final_401:
  assumes "getValidTokens (checkRateLimit w) = (Inr t, w2)"
    and "fetch (apiRequest (config_environment w2) t m e b) w2 = (Inr r, w3)"
    and "status r = 401" and "1 \<le> k"
  shows "request m e b k w = (settle r, w3)"
  using assms by (subst request.simps) (simp add: MAX_RETRIES_def Let_def)

lemma request_final_429:
  assumes "getValidTokens (checkRateLimit w) = (Inr t, w2)"
    and "fetch (apiRequest (config_environment w2) t m e b) w2 = (Inr r, w3)"
    and "status r = 429" and "3 \<le> k"
  shows "request m e b k w = (settle r, w3)"
  using assms by (subst request.simps) (simp add: MAX_RETRIES_def Let_def)

lemma fetchCalls_checkRateLimit [simp]: "fetchCalls (checkRateLimit w) = fetchCalls w"
  by (simp add: checkRateLimit_def Let_def sleep_def fetchCalls_def)

lemma fetchCalls_getValidTokens: "fetchCalls (snd (getValidTokens w)) = fetchCalls w"
  by (auto simp add: getValidTokens_def getTokens_def refreshTokens_def Let_def storeTokens_def
      clearTokens_def fetchCalls_def split: option.splits oauth_reply.splits)

lemma fetchCalls_fetch: "fetchCalls (snd (fetch req w)) = Suc (fetchCalls w)"
  by (auto simp add: fetch_def Let_def fetchCalls_def split: api_reply.splits)

lemma fetchCalls_sleep [simp]: "fetchCalls (sleep d w) = fetchCalls w"
  by (simp add: sleep_def fetchCalls_def)

lemma fetchCalls_storeTokens [simp]: "fetchCalls (storeTokens t w) = fetchCalls w"
  by (simp add: storeTokens_def fetchCalls_def)

lemma fetchCalls_getTokens [simp]: "fetchCalls (snd (getTokens w)) = fetchCalls w"
  by (simp add: getTokens_def fetchCalls_def)

lemma fetchCalls_refreshTokens [simp]: "fetchCalls (snd (refreshTokens rt realm w)) = fetchCalls w"
  by (simp add: refreshTokens_def Let_def fetchCalls_def split: oauth_reply.splits)

lemma request_fetch_bound:
  "k \<le> 3 \<Longrightarrow> fetchCalls (snd (request m e b k w)) \<le> fetchCalls w + (4 - k)"
proof (induction m e b k w rule: request.induct)
  case (1 meth path body retryCount w)
  obtain res w2 where P2: "getValidTokens (checkRateLimit w) = (res, w2)"
    by (cases "getValidTokens (checkRateLimit w)")
  have f2: "fetchCalls w2 = fetchCalls w"
    using fetchCalls_getValidTokens [of "checkRateLimit w"] P2 by simp
  show ?case
  proof (cases res)
    case (Inl err)
    then show ?thesis using P2 f2 by (subst request.simps) simp
  next
    case (Inr tokens)
    obtain res3 w3
      where P3: "fetch (apiRequest (config_environment w2) tokens meth path body) w2 = (res3, w3)"
      by (cases "fetch (apiRequest (config_environment w2) tokens meth path body) w2")
    have f3: "fetchCalls w3 = Suc (fetchCalls w)"
      using fetchCalls_fetch [of "apiRequest (config_environment w2) tokens meth path body" w2]
        P3 f2 by simp
    show ?thesis
    proof (cases res3)
      case (Inl err)
      then show ?thesis using P2 Inr P3 f3 "1.prems"
        by (subst request.simps) simp
    next
      case R: (Inr response)
      consider (r429) "status response = 429 \<and> retryCount < MAX_RETRIES"
        | (r401) "\<not> (status response = 429 \<and> retryCount < MAX_RETRIES)"
                 "status response = 401 \<and> retryCount < 1"
        | (fin) "\<not> (status response = 429 \<and> retryCount < MAX_RETRIES)"
                "\<not> (status response = 401 \<and> retryCount < 1)"
        by blast
      then show ?thesis
      proof cases
        case r429
        have eq: "request meth path body retryCount w
                  = request meth path body (retryCount + 1) (sleep (retryDelay response retryCount) w3)"
          using P2 Inr P3 R r429 by (subst request.simps) (simp add: Let_def)
        have k: "retryCount < 3" using r429 by (simp add: MAX_RETRIES_def)
        have "fetchCalls (snd (request meth path body (retryCount + 1)
                 (sleep (retryDelay response retryCount) w3)))
              \<le> fetchCalls (sleep (retryDelay response retryCount) w3) + (4 - (retryCount + 1))"
          using "1.IH"(1) [OF refl P2 [symmetric] Inr P3 [symmetric] R r429 refl refl] k
          by simp
        then have "fetchCalls (snd (request meth path body (retryCount + 1)
                 (sleep (retryDelay response retryCount) w3)))
              \<le> fetchCalls w3 + (4 - (retryCount + 1))"
          by (simp only: fetchCalls_sleep)
        with f3 k have "fetchCalls (snd (request meth path body (retryCount + 1)
                 (sleep (retryDelay response retryCount) w3)))
              \<le> fetchCalls w + (4 - retryCount)"
          by linarith
        then show ?thesis by (simp only: eq)
      next
        case r401
        obtain ts w4 where P4: "getTokens w3 = (ts, w4)" by (cases "getTokens w3")
        have f4: "fetchCalls w4 = fetchCalls w3"
          using fetchCalls_getTokens [of w3] P4 by simp
        show ?thesis
        proof (cases ts)
          case None
          then show ?thesis using P2 Inr P3 R r401 P4 f3 f4
            by (subst request.simps) (simp add: Let_def)
        next
          case (Some t')
          obtain res5 w5 where P5: "refreshTokens (refresh_token t') (realm_id t') w4 = (res5, w5)"
            by (cases "refreshTokens (refresh_token t') (realm_id t') w4")
          have f5: "fetchCalls w5 = fetchCalls w3"
            using fetchCalls_refreshTokens [of "refresh_token t'" "realm_id t'" w4] P5 f4 by simp
          show ?thesis
          proof (cases res5)
            case (Inl err)
            then show ?thesis using P2 Inr P3 R r401 P4 Some P5 f3 f5
              by (subst request.simps) (simp add: Let_def)
          next
            case N: (Inr newTokens)
            have eq: "request meth path body retryCount w
                      = request meth path body (retryCount + 1) (storeTokens newTokens w5)"
              using P2 Inr P3 R r401 P4 Some P5 N by (subst request.simps) (simp add: Let_def)
            have "fetchCalls (snd (request meth path body (retryCount + 1)
                     (storeTokens newTokens w5)))
                  \<le> fetchCalls (storeTokens newTokens w5) + (4 - (retryCount + 1))"
              using "1.IH"(2) [OF refl P2 [symmetric] Inr P3 [symmetric] R r401(1) r401(2)
                      P4 [symmetric] Some P5 [symmetric] N] r401
              by simp
            then have "fetchCalls (snd (request meth path body (retryCount + 1)
                     (storeTokens newTokens w5)))
                  \<le> fetchCalls w5 + (4 - (retryCount + 1))"
              by (simp only: fetchCalls_storeTokens)
            with f3 f5 r401 have "fetchCalls (snd (request meth path body (retryCount + 1)
                     (storeTokens newTokens w5)))
                  \<le> fetchCalls w + (4 - retryCount)"
              by linarith
            then show ?thesis by (simp only: eq)
          qed
        qed
      next
        case fin
        have eq: "request meth path body retryCount w = (settle response, w3)"
          using P2 Inr P3 R fin by (subst request.simps) (auto simp add: Let_def)
        have "fetchCalls w3 \<le> fetchCalls w + (4 - retryCount)"
          using f3 "1.prems" by linarith
        then show ?thesis by (simp add: eq)
      qed
    qed
  qed
qed

text \<open>
  C3, as the spec states it, fails both ways. After a retry of a 429 a 401 is not retried:
  the call ends after two requests with no refresh, and the 200 that a retry would have
  met is never asked for. After the retry of a 401 only two more 429 are retried: the
  call ends at the fourth request, after delays of 2000 and 4000 ms.
\<close>

theorem request_ladders_counterexample:
  "fst (request ''GET'' ''/invoice/1'' JUndefined 0 throttledThenUnauthorized)
     = Inl (QuickBooksError ''Unauthorized access to QuickBooks API'' UNAUTHORIZED (Some 401)
              (JObj [(''status'', JNum 401)]))
   \<and> fetchCalls (snd (request ''GET'' ''/invoice/1'' JUndefined 0 throttledThenUnauthorized)) = 2
   \<and> refreshCalls (snd (request ''GET'' ''/invoice/1'' JUndefined 0 throttledThenUnauthorized)) = 0
   \<and> fst (request ''GET'' ''/invoice/1'' JUndefined 0 unauthorizedThenThrottled)
     = Inl (QuickBooksError ''QuickBooks API rate limit exceeded'' RATE_LIMIT (Some 429)
              (JObj [(''status'', JNum 429)]))
   \<and> fetchCalls (snd (request ''GET'' ''/invoice/1'' JUndefined 0 unauthorizedThenThrottled)) = 4
   \<and> sleeps (snd (request ''GET'' ''/invoice/1'' JUndefined 0 unauthorizedThenThrottled))
     = [Sleep (Some 2000), Sleep (Some 4000)]"
  by (simp add: throttledThenUnauthorized_def unauthorizedThenThrottled_def scenario_defs request.simps client_defs trace_defs)

text \<open>
  C3, amended. The two retries of \<^verbatim>\<open>request\<close> share the one counter \<^verbatim>\<open>retryCount\<close>.
  For an attempt at count \<open>k\<close> whose \<^verbatim>\<open>fetch\<close> returns the response \<open>r\<close>: a 429 at
  \<open>k < 3\<close> is retried at count \<open>k + 1\<close> after the delay; a 401 at \<open>k = 0\<close>, with
  credentials in the store and a refresh that succeeds, is retried at count \<open>k + 1\<close> with
  the refreshed credentials stored; a 401 at \<open>k \<ge> 1\<close>, so after any retry, and a 429 at
  \<open>k \<ge> 3\<close> end the call with the normalised response and no further effect. A call
  started at count 0 therefore makes at most four requests, whatever the mix of 401 and 429.
\<close>

theorem request_shared_retry_counter:
  assumes "getValidTokens (checkRateLimit w) = (Inr t, w2)"
    and "fetch (apiRequest (config_environment w2) t m e b) w2 = (Inr r, w3)"
  shows "(status r = 429 \<and> k < 3 \<longrightarrow>
            request m e b k w = request m e b (k + 1) (sleep (retryDelay r k) w3))
         \<and> (status r = 401 \<and> k = 0 \<and> tokenStore w3 = Some t'
             \<and> refreshTokens (refresh_token t') (realm_id t') (snd (getTokens w3)) = (Inr nt, w5)
             \<longrightarrow> request m e b k w = request m e b (k + 1) (storeTokens nt w5))
         \<and> (status r = 401 \<and> 1 \<le> k \<longrightarrow> request m e b k w = (settle r, w3))
         \<and> (status r = 429 \<and> 3 \<le> k \<longrightarrow> request m e b k w = (settle r, w3))
         \<and> (k \<le> 3 \<longrightarrow> fetchCalls (snd (request m e b k w)) \<le> fetchCalls w + (4 - k))"
  using request_retry_429 [OF assms] request_retry_401 [OF assms]
    request_final_401 [OF assms] request_final_429 [OF assms] request_fetch_bound
  by blast

theorem request_shared_retry_counter_witness:
  "request ''GET'' ''/invoice/1'' JUndefined 0 throttledThenUnauthorized
     = request ''GET'' ''/invoice/1'' JUndefined 1 (sleep (Some 1000) afterFirstFetch)
   \<and> fetchCalls (snd (request ''GET'' ''/invoice/1'' JUndefined 0 throttledThenUnauthorized)) \<le> 4"
proof -
  have tokens:
    "getValidTokens (checkRateLimit throttledThenUnauthorized)
       = (Inr credentials, snd (getValidTokens (checkRateLimit throttledThenUnauthorized)))"
    by (simp add: throttledThenUnauthorized_def scenario_defs client_defs)
  have env:
    "config_environment (snd (getValidTokens (checkRateLimit throttledThenUnauthorized)))
       = Some sandbox"
    by (simp add: throttledThenUnauthorized_def scenario_defs client_defs)
  have fetched:
    "fetch (apiRequest
              (config_environment (snd (getValidTokens (checkRateLimit throttledThenUnauthorized))))
              credentials ''GET'' ''/invoice/1'' JUndefined)
           (snd (getValidTokens (checkRateLimit throttledThenUnauthorized)))
       = (Inr \<lparr>status = 429, retryAfter = None, json = Inr (JObj [])\<rparr>, afterFirstFetch)"
    unfolding env afterFirstFetch_def by (simp add: throttledThenUnauthorized_def scenario_defs client_defs)
  have none: "fetchCalls throttledThenUnauthorized = 0"
    by (simp add: throttledThenUnauthorized_def scenario_defs trace_defs)
  note shared = request_shared_retry_counter [OF tokens fetched, of 0]
  have retried:
    "request ''GET'' ''/invoice/1'' JUndefined 0 throttledThenUnauthorized
       = request ''GET'' ''/invoice/1'' JUndefined 1 (sleep (Some 1000) afterFirstFetch)"
    using shared by (simp add: retryDelay_def INITIAL_RETRY_DELAY_MS_def)
  have bounded:
    "fetchCalls (snd (request ''GET'' ''/invoice/1'' JUndefined 0 throttledThenUnauthorized)) \<le> 4"
  proof -
    have "(0::nat) \<le> 3" by simp
    with shared
    have "fetchCalls (snd (request ''GET'' ''/invoice/1'' JUndefined 0 throttledThenUnauthorized))
            \<le> fetchCalls throttledThenUnauthorized + (4 - 0)"
      by blast
    with none show ?thesis by simp
  qed
  show ?thesis by (rule conjI [OF retried bounded])
qed

subsection \<open>A refresh that the token endpoint rejects\<close>

lemma getValidTokens_clears_on_401:
  assumes "tokenStore w = Some t" and "expires_at t \<le> clock w div 1000 + 300"
    and "oauth w (oauthCalls w) = TokenRejected 401 body"
  shows "fst (getValidTokens w)
           = Inl (QuickBooksError ''Failed to refresh tokens: 401'' REFRESH_FAILED (Some 401)
                    (case body of Some v \<Rightarrow> v | None \<Rightarrow> JObj []))
         \<and> clearCalls (snd (getValidTokens w)) = Suc (clearCalls w)
         \<and> tokenStore (snd (getValidTokens w)) = None"
  using assms
  by (simp add: getValidTokens_def getTokens_def isTokenExpired_def refreshTokens_def Let_def
        clearTokens_def clearCalls_def showInt_def showNat.simps)

lemma request_forced_refresh_rejected:
  assumes "getValidTokens (checkRateLimit w) = (Inr t, w2)"
    and "fetch (apiRequest (config_environment w2) t m e b) w2 = (Inr r, w3)"
    and "status r = 401" and "tokenStore w3 = Some t'"
    and "oauth w3 (oauthCalls w3) = TokenRejected st body"
  shows "fst (request m e b 0 w)
           = Inl (QuickBooksError (''Failed to refresh tokens: '' @ showInt st) REFRESH_FAILED
                    (Some st) (case body of Some v \<Rightarrow> v | None \<Rightarrow> JObj []))
         \<and> clearCalls (snd (request m e b 0 w)) = clearCalls w3
         \<and> tokenStore (snd (request m e b 0 w)) = Some t'"
  using assms
  by (subst (1 2 3) request.simps)
     (simp add: Let_def getTokens_def refreshTokens_def handleQuickBooksError_def thrownBy_def
        clearCalls_def)

text \<open>
  C4 holds in \<^verbatim>\<open>getValidTokens\<close> and fails in \<^verbatim>\<open>request\<close>. With valid credentials in
  the store, an API that answers 401 and a token endpoint that rejects the refresh with
  401, the forced refresh of \<^verbatim>\<open>request\<close> surfaces the refresh failure but never calls
  \<^verbatim>\<open>clearTokens\<close>: the dead credentials stay in the store. The same rejection met by
  \<^verbatim>\<open>getValidTokens\<close>, on credentials at the end of their life, clears the store once.
\<close>

theorem request_forced_refresh_401_not_cleared:
  "fst (request ''GET'' ''/invoice/1'' JUndefined 0 revoked)
     = Inl (QuickBooksError ''Failed to refresh tokens: 401'' REFRESH_FAILED (Some 401)
              (JObj [(''error'', JStr ''invalid_grant'')]))
   \<and> refreshCalls (snd (request ''GET'' ''/invoice/1'' JUndefined 0 revoked)) = 1
   \<and> clearCalls (snd (request ''GET'' ''/invoice/1'' JUndefined 0 revoked)) = 0
   \<and> tokenStore (snd (request ''GET'' ''/invoice/1'' JUndefined 0 revoked)) = Some credentials
   \<and> clearCalls (snd (getValidTokens
                        (revoked\<lparr>tokenStore := Some (credentials\<lparr>expires_at := 1300\<rparr>)\<rparr>))) = 1"
  by (simp add: revoked_def scenario_defs request.simps client_defs trace_defs)

subsection \<open>The end of a call, the delay before a retry\<close>

lemma map_of_overwrite:
  "map_of (map (\<lambda>(k', v'). if k' = k then (k', v) else (k', v')) fs) x
     = (if x = k \<and> k \<in> fst ` set fs then Some v else map_of fs x)"
proof (induction fs arbitrary: x)
  case Nil
  then show ?case by simp
next
  case (Cons kv fs)
  obtain a b where kv: "kv = (a, b)" by (cases kv)
  show ?case
  proof (cases "a = k")
    case True
    then show ?thesis using Cons.IH [of x] kv by simp
  next
    case False
    then show ?thesis using Cons.IH [of x] Cons.IH [of k] kv by auto
  qed
qed

lemma map_of_setProp: "map_of (setProp k v fs) = (map_of fs)(k \<mapsto> v)"
proof (cases "k \<in> set (map fst fs)")
  case True
  then show ?thesis by (auto simp add: setProp_def fun_eq_iff map_of_overwrite)
next
  case False
  then have "map_of fs k = None" by (simp add: map_of_eq_None_iff)
  then show ?thesis using False
    by (auto simp add: setProp_def fun_eq_iff map_add_def split: option.splits)
qed

lemma map_of_spread:
  "k \<notin> fst ` set ps \<Longrightarrow>
   map_of (foldl (\<lambda>acc (k, v). setProp k v acc) fs ps) k = map_of fs k"
  by (induction ps arbitrary: fs) (auto simp add: map_of_setProp)

lemma status_survives_spread:
  assumes "''status'' \<notin> fst ` set (ownProps src)"
  shows "getProp (JObj (spreadInto [(''status'', JNum st)] src)) ''status'' = JNum st"
  using map_of_spread [OF assms, of "[(''status'', JNum st)]"]
  by (simp add: spreadInto_def)

lemma settle_429:
  assumes "status r = 429" and "''status'' \<notin> fst ` set (ownProps (errorDataOf r))"
  shows "settle r = Inl (QuickBooksError ''QuickBooks API rate limit exceeded'' RATE_LIMIT (Some 429)
                          (JObj (spreadInto [(''status'', JNum 429)] (errorDataOf r))))"
  using assms status_survives_spread [OF assms(2), of 429]
  by (simp add: settle_def ok_def Let_def handleQuickBooksError_def thrownBy_def)

lemma settle_401:
  assumes "status r = 401" and "''status'' \<notin> fst ` set (ownProps (errorDataOf r))"
  shows "settle r = Inl (QuickBooksError ''Unauthorized access to QuickBooks API'' UNAUTHORIZED (Some 401)
                          (JObj (spreadInto [(''status'', JNum 401)] (errorDataOf r))))"
  using assms status_survives_spread [OF assms(2), of 401]
  by (simp add: settle_def ok_def Let_def handleQuickBooksError_def thrownBy_def)

lemma retryDelay_backoff:
  "retryAfter r = None \<Longrightarrow> retryDelay r k = Some (1000 * 2 ^ k)"
  by (simp add: retryDelay_def INITIAL_RETRY_DELAY_MS_def)

lemma retryDelay_hint:
  "retryAfter r = Some s \<Longrightarrow> s \<noteq> [] \<Longrightarrow> parseInt10 s = Some n \<Longrightarrow>
   retryDelay r k = Some (n * 1000)"
  by (simp add: retryDelay_def)

lemma below_ten:
  "(d::nat) < 10 \<Longrightarrow>
   d = 0 \<or> d = 1 \<or> d = 2 \<or> d = 3 \<or> d = 4 \<or> d = 5 \<or> d = 6 \<or> d = 7 \<or> d = 8 \<or> d = 9"
  by presburger

lemma digitVal_digit: "d < 10 \<Longrightarrow> digitVal (''0123456789'' ! d) = d"
  by (drule below_ten) (auto simp add: digitVal_def)

lemma isDigit_digit: "d < 10 \<Longrightarrow> isDigit (''0123456789'' ! d)"
  by (drule below_ten) (auto simp add: isDigit_def)

lemma showNat_digits: "showNat n \<noteq> [] \<and> (\<forall>c \<in> set (showNat n). isDigit c)"
proof (induction n rule: showNat.induct)
  case (1 n)
  show ?case
  proof (cases "n < 10")
    case True
    then show ?thesis using isDigit_digit [of n] by (subst (1 2) showNat.simps) simp
  next
    case False
    then show ?thesis using "1.IH" isDigit_digit [of "n mod 10"]
      by (subst (1 2) showNat.simps) auto
  qed
qed

lemma showNat_value: "foldl (\<lambda>a c. 10 * a + digitVal c) 0 (showNat n) = n"
proof (induction n rule: showNat.induct)
  case (1 n)
  show ?case
  proof (cases "n < 10")
    case True
    then show ?thesis using digitVal_digit [of n] by (subst showNat.simps) simp
  next
    case False
    then show ?thesis using "1.IH" digitVal_digit [of "n mod 10"]
      by (subst showNat.simps) simp
  qed
qed

lemma isDigit_not_space: "isDigit c \<Longrightarrow> \<not> isSpace c \<and> c \<noteq> CHR ''-'' \<and> c \<noteq> CHR ''+''"
  by (auto simp add: isDigit_def isSpace_def)

lemma parseInt10_showNat: "parseInt10 (showNat n) = Some (int n)"
proof -
  obtain c cs where cs: "showNat n = c # cs" using showNat_digits [of n] by (cases "showNat n") auto
  have all: "\<forall>x \<in> set (showNat n). isDigit x" using showNat_digits by blast
  then have c: "isDigit c" using cs by simp
  have drop: "dropWhile isSpace (showNat n) = showNat n"
    using c isDigit_not_space [OF c] cs by simp
  have take: "takeWhile isDigit (showNat n) = showNat n"
    using all by (simp add: takeWhile_eq_all_conv)
  show ?thesis
    using isDigit_not_space [OF c] showNat_value [of n] take cs
    by (simp add: parseInt10_def drop Let_def)
qed

lemma request_gives_up_429:
  assumes "getValidTokens (checkRateLimit w) = (Inr t, w2)"
    and "fetch (apiRequest (config_environment w2) t m e b) w2 = (Inr r, w3)"
    and "status r = 429" and "3 \<le> k"
    and "''status'' \<notin> fst ` set (ownProps (errorDataOf r))"
  shows "request m e b k w
           = (Inl (QuickBooksError ''QuickBooks API rate limit exceeded'' RATE_LIMIT (Some 429)
                     (JObj (spreadInto [(''status'', JNum 429)] (errorDataOf r)))), w3)"
  using request_final_429 [OF assms(1-4)] settle_429 [OF assms(3) assms(5)] by simp

lemma request_gives_up_401:
  assumes "getValidTokens (checkRateLimit w) = (Inr t, w2)"
    and "fetch (apiRequest (config_environment w2) t m e b) w2 = (Inr r, w3)"
    and "status r = 401" and "1 \<le> k"
    and "''status'' \<notin> fst ` set (ownProps (errorDataOf r))"
  shows "request m e b k w
           = (Inl (QuickBooksError ''Unauthorized access to QuickBooks API'' UNAUTHORIZED (Some 401)
                     (JObj (spreadInto [(''status'', JNum 401)] (errorDataOf r)))), w3)"
  using request_final_401 [OF assms(1-4)] settle_401 [OF assms(3) assms(5)] by simp


lemma retryDelay_seconds:
  "retryAfter r = Some (showNat n) \<Longrightarrow> retryDelay r k = Some (int n * 1000)"
  using showNat_digits [of n] by (simp add: retryDelay_def parseInt10_showNat)

subsection \<open>The two retries from retry count 0\<close>

text \<open>
  For credentials that stay valid and a rate window with room: four 429 in a row without a
  Retry-After header are met with delays of 1000, 2000 and 4000 ms and four requests; a
  first 401 is met with one refresh, one \<^verbatim>\<open>storeTokens\<close> and one reissue, and a second
  401 is final. The error that surfaces has the code of the HTTP status when the body of
  the last response has no member named \<^verbatim>\<open>status\<close>.
\<close>

lemma request_final:
  assumes "getValidTokens (checkRateLimit w) = (Inr t, w2)"
    and "fetch (apiRequest (config_environment w2) t m e b) w2 = (Inr r, w3)"
    and "\<not> (status r = 429 \<and> k < 3)" and "\<not> (status r = 401 \<and> k < 1)"
  shows "request m e b k w = (settle r, w3)"
  using assms by (subst request.simps) (auto simp add: MAX_RETRIES_def Let_def)

lemma attempt_tokens:
  assumes "tokenStore w = Some t" and "clock w div 1000 + 300 < expires_at t"
    and "length (requestTimestamps w) < 500"
  shows "getValidTokens (checkRateLimit w)
           = (Inr t, w\<lparr>requestTimestamps := inWindow w @ [clock w],
                         trace := trace w @ [GetTokens]\<rparr>)"
proof -
  have "length (inWindow w) \<le> length (requestTimestamps w)" by (simp add: inWindow_def)
  with assms(3) have room: "length (inWindow w) < 500" by simp
  show ?thesis
    using assms(1,2)
    by (simp add: checkRateLimit_free [OF room] getValidTokens_def getTokens_def
          isTokenExpired_def)
qed

lemma attempt_fetch:
  assumes "api w (apiCalls w) (apiRequest (config_environment w) t m e b) = Reply r"
  shows "fetch (apiRequest (config_environment
                   (w\<lparr>requestTimestamps := inWindow w @ [clock w],
                      trace := trace w @ [GetTokens]\<rparr>)) t m e b)
           (w\<lparr>requestTimestamps := inWindow w @ [clock w], trace := trace w @ [GetTokens]\<rparr>)
         = (Inr r, w\<lparr>requestTimestamps := inWindow w @ [clock w],
                       apiCalls := Suc (apiCalls w),
                       trace := trace w @ [GetTokens,
                                  Fetch (apiRequest (config_environment w) t m e b)]\<rparr>)"
  using assms by (simp add: fetch_def)

lemma request_backoff_ladder:
  fixes k :: nat
  assumes "k \<le> 3" and "tokenStore w = Some t"
    and "clock w div 1000 + 300 + (8 - 2 ^ k) < expires_at t"
    and "length (requestTimestamps w) + (4 - k) \<le> 500"
    and "\<forall>i \<le> 3 - k. \<exists>r. api w (apiCalls w + i) (apiRequest (config_environment w) t m e b) = Reply r
                           \<and> status r = 429 \<and> retryAfter r = None"
  shows "\<exists>r w'. request m e b k w = (settle r, w')
           \<and> api w (apiCalls w + (3 - k)) (apiRequest (config_environment w) t m e b) = Reply r
           \<and> sleeps w' = sleeps w @ map (\<lambda>j. Sleep (Some (1000 * 2 ^ j))) [k..<3]
           \<and> fetchCalls w' = fetchCalls w + (4 - k)"
  using assms
proof (induction "3 - k" arbitrary: k w)
  case 0
  then have k: "k = 3" by simp
  from "0.prems"(5) obtain r
    where r: "api w (apiCalls w) (apiRequest (config_environment w) t m e b) = Reply r"
      and st: "status r = 429"
    by auto
  have fresh: "clock w div 1000 + 300 < expires_at t" using "0.prems"(3) k by simp
  have room: "length (requestTimestamps w) < 500" using "0.prems"(4) k by simp
  note tk = attempt_tokens [OF "0.prems"(2) fresh room]
  note ft = attempt_fetch [OF r]
  have "request m e b k w = (settle r, w\<lparr>requestTimestamps := inWindow w @ [clock w],
                       apiCalls := Suc (apiCalls w),
                       trace := trace w @ [GetTokens,
                                  Fetch (apiRequest (config_environment w) t m e b)]\<rparr>)"
    using request_final_429 [OF tk ft st] k by simp
  then show ?case using r k by (auto simp add: sleeps_def fetchCalls_def)
next
  case (Suc n)
  then have k: "k < 3" by simp
  from Suc.prems(5) obtain r
    where r: "api w (apiCalls w) (apiRequest (config_environment w) t m e b) = Reply r"
      and st: "status r = 429" and hint: "retryAfter r = None"
    by (metis add.right_neutral le0)
  have pow: "(2::int) ^ k \<le> 4"
  proof -
    have "k \<le> 2" using k by simp
    then have "(2::int) ^ k \<le> 2 ^ 2" by (rule power_increasing) simp
    then show ?thesis by simp
  qed
  have fresh: "clock w div 1000 + 300 < expires_at t" using Suc.prems(3) pow by simp
  have room: "length (requestTimestamps w) < 500" using Suc.prems(4) k by simp
  note tk = attempt_tokens [OF Suc.prems(2) fresh room]
  note ft = attempt_fetch [OF r]
  let ?w3 = "w\<lparr>requestTimestamps := inWindow w @ [clock w],
                       apiCalls := Suc (apiCalls w),
                       trace := trace w @ [GetTokens,
                                  Fetch (apiRequest (config_environment w) t m e b)]\<rparr>"
  let ?w4 = "sleep (Some (1000 * 2 ^ k)) ?w3"
  have step: "request m e b k w = request m e b (k + 1) ?w4"
    using request_retry_429 [OF tk ft st k] by (simp add: retryDelay_backoff [OF hint])
  have n: "n = 3 - (k + 1)" using Suc.hyps(2) by simp
  have k1: "k + 1 \<le> 3" using k by simp
  have store4: "tokenStore ?w4 = Some t" using Suc.prems(2) by (simp add: sleep_def)
  have clock4: "clock ?w4 = clock w + 1000 * 2 ^ k" by (simp add: sleep_def)
  have "(clock w + 1000 * 2 ^ k) div 1000 = clock w div 1000 + 2 ^ k"
    by (simp add: mult.commute)
  then have fresh4: "clock ?w4 div 1000 + 300 + (8 - 2 ^ (k + 1)) < expires_at t"
    using Suc.prems(3) clock4 by simp
  have "length (inWindow w) \<le> length (requestTimestamps w)" by (simp add: inWindow_def)
  then have room4: "length (requestTimestamps ?w4) + (4 - (k + 1)) \<le> 500"
    using Suc.prems(4) k by (simp add: sleep_def)
  have replies4: "\<forall>i \<le> 3 - (k + 1). \<exists>r. api ?w4 (apiCalls ?w4 + i)
                      (apiRequest (config_environment ?w4) t m e b) = Reply r
                           \<and> status r = 429 \<and> retryAfter r = None"
  proof (intro allI impI)
    fix i assume "i \<le> 3 - (k + 1)"
    then have "Suc i \<le> 3 - k" using k by simp
    with Suc.prems(5) obtain r' where "api w (apiCalls w + Suc i)
        (apiRequest (config_environment w) t m e b) = Reply r'" "status r' = 429"
        "retryAfter r' = None" by blast
    then show "\<exists>r. api ?w4 (apiCalls ?w4 + i) (apiRequest (config_environment ?w4) t m e b) = Reply r
                           \<and> status r = 429 \<and> retryAfter r = None"
      by (simp add: sleep_def)
  qed
  from Suc.hyps(1) [OF n k1 store4 fresh4 room4 replies4] obtain r' w'
    where res: "request m e b (k + 1) ?w4 = (settle r', w')"
      and last: "api ?w4 (apiCalls ?w4 + (3 - (k + 1)))
                   (apiRequest (config_environment ?w4) t m e b) = Reply r'"
      and sl: "sleeps w' = sleeps ?w4 @ map (\<lambda>j. Sleep (Some (1000 * 2 ^ j))) [k + 1..<3]"
      and fc: "fetchCalls w' = fetchCalls ?w4 + (4 - (k + 1))"
    by blast
  have last': "api w (apiCalls w + (3 - k)) (apiRequest (config_environment w) t m e b) = Reply r'"
  proof -
    have calls: "apiCalls ?w4 + (3 - (k + 1)) = apiCalls w + (3 - k)"
      using k by (simp add: sleep_def)
    have same: "api ?w4 = api w" "config_environment ?w4 = config_environment w"
      by (simp_all add: sleep_def)
    from last show ?thesis unfolding calls same .
  qed
  have sl': "sleeps w' = sleeps w @ map (\<lambda>j. Sleep (Some (1000 * 2 ^ j))) [k..<3]"
    using sl k by (simp add: sleeps_def sleep_def upt_conv_Cons [of k 3])
  have fc': "fetchCalls w' = fetchCalls w + (4 - k)"
    using fc k by (simp add: fetchCalls_def sleep_def)
  from step res last' sl' fc' show ?case by auto
qed

lemma request_rate_limit_exhausted:
  assumes "tokenStore w = Some t" and "clock w div 1000 + 307 < expires_at t"
    and "length (requestTimestamps w) + 4 \<le> 500"
    and "\<forall>i \<le> 3. \<exists>r. api w (apiCalls w + i) (apiRequest (config_environment w) t m e b) = Reply r
                      \<and> status r = 429 \<and> retryAfter r = None
                      \<and> ''status'' \<notin> fst ` set (ownProps (errorDataOf r))"
  shows "\<exists>d w'. request m e b 0 w
             = (Inl (QuickBooksError ''QuickBooks API rate limit exceeded'' RATE_LIMIT (Some 429) d), w')
           \<and> sleeps w' = sleeps w @ [Sleep (Some 1000), Sleep (Some 2000), Sleep (Some 4000)]
           \<and> fetchCalls w' = fetchCalls w + 4"
proof -
  have replies: "\<forall>i \<le> 3 - 0. \<exists>r. api w (apiCalls w + i) (apiRequest (config_environment w) t m e b) = Reply r
                           \<and> status r = 429 \<and> retryAfter r = None"
    using assms(4) by auto
  have fresh: "clock w div 1000 + 300 + (8 - 2 ^ 0) < expires_at t" using assms(2) by simp
  have room: "length (requestTimestamps w) + (4 - 0) \<le> 500" using assms(3) by simp
  from request_backoff_ladder [OF _ assms(1) fresh room replies] obtain r w'
    where res: "request m e b 0 w = (settle r, w')"
      and last: "api w (apiCalls w + (3 - 0)) (apiRequest (config_environment w) t m e b) = Reply r"
      and sl: "sleeps w' = sleeps w @ map (\<lambda>j. Sleep (Some (1000 * 2 ^ j))) [0..<3]"
      and fc: "fetchCalls w' = fetchCalls w + (4 - 0)"
    by auto
  from assms(4) obtain r' where "api w (apiCalls w + 3) (apiRequest (config_environment w) t m e b) = Reply r'"
    and "status r' = 429" and "''status'' \<notin> fst ` set (ownProps (errorDataOf r'))"
    by blast
  with last have st: "status r = 429"
    and plain: "''status'' \<notin> fst ` set (ownProps (errorDataOf r))"
    by simp_all
  have "[0..<3] = [0, 1, 2]" by (simp add: upt_conv_Cons)
  with sl have sl': "sleeps w' = sleeps w @ [Sleep (Some 1000), Sleep (Some 2000), Sleep (Some 4000)]"
    by simp
  from res settle_429 [OF st plain] sl' fc show ?thesis by auto
qed

lemma request_refresh_once:
  assumes "tokenStore w = Some t" and "clock w div 1000 + 300 < expires_at t"
    and "length (requestTimestamps w) + 2 \<le> 500"
    and "api w (apiCalls w) (apiRequest (config_environment w) t m e b) = Reply r1"
    and "status r1 = 401"
    and "oauth w (oauthCalls w) = TokenOk d" and "300 < expires_in d"
    and "api w (Suc (apiCalls w))
           (apiRequest (config_environment w)
              \<lparr>access_token = resp_access_token d, refresh_token = resp_refresh_token d,
               realm_id = realm_id t, expires_at = clock w div 1000 + expires_in d,
               token_type = Some (resp_token_type d)\<rparr> m e b) = Reply r2"
    and "status r2 \<noteq> 429"
  shows "\<exists>w'. request m e b 0 w = (settle r2, w')
           \<and> refreshCalls w' = Suc (refreshCalls w)
           \<and> storeCalls w' = Suc (storeCalls w)
           \<and> fetchCalls w' = fetchCalls w + 2
           \<and> sleeps w' = sleeps w
           \<and> tokenStore w' =
               Some \<lparr>access_token = resp_access_token d, refresh_token = resp_refresh_token d,
                     realm_id = realm_id t, expires_at = clock w div 1000 + expires_in d,
                     token_type = Some (resp_token_type d)\<rparr>"
proof -
  let ?new = "\<lparr>access_token = resp_access_token d, refresh_token = resp_refresh_token d,
               realm_id = realm_id t, expires_at = clock w div 1000 + expires_in d,
               token_type = Some (resp_token_type d)\<rparr>"
  let ?req = "apiRequest (config_environment w) t m e b"
  have room: "length (requestTimestamps w) < 500" using assms(3) by simp
  note tk = attempt_tokens [OF assms(1) assms(2) room]
  note ft = attempt_fetch [OF assms(4)]
  let ?w3 = "w\<lparr>requestTimestamps := inWindow w @ [clock w], apiCalls := Suc (apiCalls w),
               trace := trace w @ [GetTokens, Fetch ?req]\<rparr>"
  let ?w5 = "w\<lparr>requestTimestamps := inWindow w @ [clock w], apiCalls := Suc (apiCalls w),
               oauthCalls := Suc (oauthCalls w),
               trace := trace w @ [GetTokens, Fetch ?req, GetTokens,
                                  Refresh (refresh_token t) (realm_id t)]\<rparr>"
  have store3: "tokenStore ?w3 = Some t" using assms(1) by simp
  have refresh: "refreshTokens (refresh_token t) (realm_id t) (snd (getTokens ?w3)) = (Inr ?new, ?w5)"
    using assms(6) by (simp add: refreshTokens_def getTokens_def calculateTokenExpiry_def)
  let ?w6 = "storeTokens ?new ?w5"
  have first: "request m e b 0 w = request m e b (0 + 1) ?w6"
    by (rule request_retry_401 [OF tk ft assms(5) refl store3 refresh])
  have store6: "tokenStore ?w6 = Some ?new" by (simp add: storeTokens_def)
  have fresh6: "clock ?w6 div 1000 + 300 < expires_at ?new"
    using assms(7) by (simp add: storeTokens_def)
  have "length (inWindow w) \<le> length (requestTimestamps w)" by (simp add: inWindow_def)
  then have room6: "length (requestTimestamps ?w6) < 500"
    using assms(3) by (simp add: storeTokens_def)
  have reply6: "api ?w6 (apiCalls ?w6) (apiRequest (config_environment ?w6) ?new m e b) = Reply r2"
    using assms(8) by (simp add: storeTokens_def)
  note tk6 = attempt_tokens [OF store6 fresh6 room6]
  note ft6 = attempt_fetch [OF reply6]
  have second: "request m e b (0 + 1) ?w6
                  = (settle r2, ?w6\<lparr>requestTimestamps := inWindow ?w6 @ [clock ?w6],
                       apiCalls := Suc (apiCalls ?w6),
                       trace := trace ?w6 @ [GetTokens,
                                  Fetch (apiRequest (config_environment ?w6) ?new m e b)]\<rparr>)"
    using request_final [OF tk6 ft6, of "0 + 1"] assms(9) by simp
  show ?thesis
    unfolding first second
    by (simp add: storeTokens_def refreshCalls_def storeCalls_def fetchCalls_def sleeps_def)
qed

lemma request_second_401:
  assumes "tokenStore w = Some t" and "clock w div 1000 + 300 < expires_at t"
    and "length (requestTimestamps w) + 2 \<le> 500"
    and "api w (apiCalls w) (apiRequest (config_environment w) t m e b) = Reply r1"
    and "status r1 = 401"
    and "oauth w (oauthCalls w) = TokenOk d" and "300 < expires_in d"
    and "api w (Suc (apiCalls w))
           (apiRequest (config_environment w)
              \<lparr>access_token = resp_access_token d, refresh_token = resp_refresh_token d,
               realm_id = realm_id t, expires_at = clock w div 1000 + expires_in d,
               token_type = Some (resp_token_type d)\<rparr> m e b) = Reply r2"
    and "status r2 = 401" and "''status'' \<notin> fst ` set (ownProps (errorDataOf r2))"
  shows "\<exists>x w'. request m e b 0 w
             = (Inl (QuickBooksError ''Unauthorized access to QuickBooks API'' UNAUTHORIZED (Some 401) x), w')
           \<and> refreshCalls w' = Suc (refreshCalls w)
           \<and> storeCalls w' = Suc (storeCalls w)
           \<and> fetchCalls w' = fetchCalls w + 2"
proof -
  have "status r2 \<noteq> 429" using assms(9) by simp
  from request_refresh_once [OF assms(1-8) this] settle_401 [OF assms(9) assms(10)]
  show ?thesis by auto
qed

subsection \<open>An error body with a member named status\<close>

text \<open>
  C5 fails on a 429 whose JSON body has a member named \<^verbatim>\<open>status\<close>. The three retries
  happen after 1000, 2000 and 4000 ms, but the fourth 429 is thrown as
  \<^verbatim>\<open>{ status: 429, ...errorData }\<close>, where the spread writes the body's \<^verbatim>\<open>status\<close> over
  the HTTP status, and \<^verbatim>\<open>handleQuickBooksError\<close> then finds no numeric status: the error
  has code \<^verbatim>\<open>API_ERROR\<close> and status 500.
\<close>

theorem request_429_status_member_overrides:
  "fst (request ''GET'' ''/invoice/1'' JUndefined 0 throttled)
     = Inl (QuickBooksError ''An unexpected error occurred with QuickBooks integration''
              API_ERROR (Some 500) (JObj [(''status'', JStr ''throttled'')]))
   \<and> fetchCalls (snd (request ''GET'' ''/invoice/1'' JUndefined 0 throttled)) = 4
   \<and> sleeps (snd (request ''GET'' ''/invoice/1'' JUndefined 0 throttled))
     = [Sleep (Some 1000), Sleep (Some 2000), Sleep (Some 4000)]"
  by (simp add: throttled_def scenario_defs request.simps client_defs trace_defs)

text \<open>
  C6 fails in the same way on a second 401 whose JSON body has a member named
  \<^verbatim>\<open>status\<close>: one refresh, one \<^verbatim>\<open>storeTokens\<close> and one reissue happen, the second 401
  is not retried, but the error that surfaces has code \<^verbatim>\<open>API_ERROR\<close> and status 500.
\<close>

theorem request_401_status_member_overrides:
  "fst (request ''GET'' ''/invoice/1'' JUndefined 0 unauthorized)
     = Inl (QuickBooksError ''An unexpected error occurred with QuickBooks integration''
              API_ERROR (Some 500) (JObj [(''status'', JStr ''error'')]))
   \<and> fetchCalls (snd (request ''GET'' ''/invoice/1'' JUndefined 0 unauthorized)) = 2
   \<and> refreshCalls (snd (request ''GET'' ''/invoice/1'' JUndefined 0 unauthorized)) = 1
   \<and> storeCalls (snd (request ''GET'' ''/invoice/1'' JUndefined 0 unauthorized)) = 1"
  by (simp add: unauthorized_def scenario_defs request.simps client_defs trace_defs)

section \<open>The query engine\<close>

lemma getValidTokens_authorized:
  assumes "authorized w"
  shows "\<exists>t w1. getValidTokens w = (Inr t, w1) \<and> authorized w1 \<and> api w1 = api w
           \<and> apiCalls w1 = apiCalls w \<and> queryTexts w1 = queryTexts w
           \<and> config_environment w1 = config_environment w"
proof -
  from assms obtain t where t: "tokenStore w = Some t" by (auto simp: authorized_def)
  from assms obtain d where d: "oauth w (oauthCalls w) = TokenOk d"
    by (auto simp: authorized_def)
  from assms have later: "\<forall>n \<ge> Suc (oauthCalls w). \<exists>d. oauth w n = TokenOk d"
    by (auto simp: authorized_def)
  show ?thesis
    using t d later assms
    by (auto simp add: getValidTokens_def getTokens_def refreshTokens_def Let_def
          storeTokens_def authorized_def queryTexts_def)
qed

lemma checkRateLimit_frame:
  "authorized (checkRateLimit w) = authorized w" "api (checkRateLimit w) = api w"
  "apiCalls (checkRateLimit w) = apiCalls w" "queryTexts (checkRateLimit w) = queryTexts w"
  "config_environment (checkRateLimit w) = config_environment w"
  by (simp_all add: checkRateLimit_def Let_def sleep_def authorized_def queryTexts_def)

lemma fetch_page:
  assumes "servesPage (api w) (apiCalls w) text pg"
  shows "\<exists>r. fetch (queryRequest env t text) w
               = (Inr r, w\<lparr>apiCalls := Suc (apiCalls w),
                            trace := trace w @ [Fetch (queryRequest env t text)]\<rparr>)
             \<and> ok r \<and> pageItems r = Inr pg"
proof -
  have "reqBody (queryRequest env t text) = TextBody text"
    by (simp add: queryRequest_def Let_def)
  with assms obtain r where "api w (apiCalls w) (queryRequest env t text) = Reply r"
    "ok r" "pageItems r = Inr pg"
    by (auto simp: servesPage_def)
  then show ?thesis by (simp add: fetch_def Let_def)
qed

lemma queryAllLoop_iteration:
  assumes "authorized w" and "servesPage (api w) (apiCalls w) (paginatedSql sql s p) pg"
  shows "\<exists>w3. authorized w3 \<and> api w3 = api w \<and> apiCalls w3 = Suc (apiCalls w)
            \<and> queryTexts w3 = queryTexts w @ [paginatedSql sql s p]
            \<and> queryAllLoop sql p s acc w
                = (if int (length pg) < p then Some (Inr (acc @ pg), w3)
                   else queryAllLoop sql p (s + p) (acc @ pg) w3)"
proof -
  from getValidTokens_authorized [OF assms(1)] obtain t w1
    where g: "getValidTokens w = (Inr t, w1)" and a1: "authorized w1" and api1: "api w1 = api w"
      and calls1: "apiCalls w1 = apiCalls w" and texts1: "queryTexts w1 = queryTexts w"
    by blast
  let ?w2 = "checkRateLimit w1"
  let ?req = "queryRequest (config_environment ?w2) t (paginatedSql sql s p)"
  have "servesPage (api ?w2) (apiCalls ?w2) (paginatedSql sql s p) pg"
    using assms(2) by (simp add: checkRateLimit_frame api1 calls1)
  from fetch_page [OF this, of "config_environment ?w2" t] obtain r
    where f: "fetch ?req ?w2
                = (Inr r, ?w2\<lparr>apiCalls := Suc (apiCalls ?w2), trace := trace ?w2 @ [Fetch ?req]\<rparr>)"
      and okr: "ok r" and items: "pageItems r = Inr pg"
    by blast
  let ?w3 = "?w2\<lparr>apiCalls := Suc (apiCalls ?w2), trace := trace ?w2 @ [Fetch ?req]\<rparr>"
  have a3: "authorized ?w3"
    using a1 checkRateLimit_frame(1) [of w1] by (simp add: authorized_def)
  have api3: "api ?w3 = api w" by (simp add: checkRateLimit_frame api1)
  have calls3: "apiCalls ?w3 = Suc (apiCalls w)" by (simp add: checkRateLimit_frame calls1)
  have texts3: "queryTexts ?w3 = queryTexts w @ [paginatedSql sql s p]"
    using checkRateLimit_frame(4) [of w1] texts1
    by (simp add: queryTexts_def queryRequest_def Let_def)
  have loop: "queryAllLoop sql p s acc w
                = (if int (length pg) < p then Some (Inr (acc @ pg), ?w3)
                   else queryAllLoop sql p (s + p) (acc @ pg) ?w3)"
    using g f okr items
    by (subst queryAllLoop.simps)
       (auto simp add: Let_def pageItems_def split: sum.splits)
  from a3 api3 calls3 texts3 loop show ?thesis by blast
qed

lemma queryAllLoop_pages:
  assumes "authorized w" and "pages \<noteq> []" and "servesPages (api w) (apiCalls w) sql s p pages"
    and "\<forall>pg \<in> set (butlast pages). p \<le> int (length pg)"
    and "int (length (last pages)) < p"
  shows "\<exists>w'. queryAllLoop sql p s acc w = Some (Inr (acc @ concat pages), w')
            \<and> queryTexts w' = queryTexts w
                 @ map (\<lambda>i. paginatedSql sql (s + int i * p) p) [0..<length pages]"
  using assms
proof (induction pages arbitrary: w s acc)
  case Nil
  then show ?case by simp
next
  case (Cons pg rest)
  from Cons.prems(3) have here: "servesPage (api w) (apiCalls w) (paginatedSql sql s p) pg"
    and there: "servesPages (api w) (Suc (apiCalls w)) sql (s + p) p rest"
    by simp_all
  from queryAllLoop_iteration [OF Cons.prems(1) here, of acc] obtain w3
    where a3: "authorized w3" and api3: "api w3 = api w" and calls3: "apiCalls w3 = Suc (apiCalls w)"
      and texts3: "queryTexts w3 = queryTexts w @ [paginatedSql sql s p]"
      and loop: "queryAllLoop sql p s acc w
                = (if int (length pg) < p then Some (Inr (acc @ pg), w3)
                   else queryAllLoop sql p (s + p) (acc @ pg) w3)"
    by blast
  show ?case
  proof (cases rest)
    case Nil
    with Cons.prems(5) have "int (length pg) < p" by simp
    with loop texts3 Nil show ?thesis by simp
  next
    case (Cons pg' rest')
    with Cons.prems(4) have long: "\<not> int (length pg) < p" by simp
    have rest_ne: "rest \<noteq> []" using Cons by simp
    have more: "\<forall>pg \<in> set (butlast rest). p \<le> int (length pg)"
      using Cons.prems(4) rest_ne by simp
    have short: "int (length (last rest)) < p"
      using Cons.prems(5) rest_ne by simp
    have there3: "servesPages (api w3) (apiCalls w3) sql (s + p) p rest"
      using there by (simp add: api3 calls3)
    from Cons.IH [OF a3 rest_ne there3 more short, of "acc @ pg"] obtain w'
      where res: "queryAllLoop sql p (s + p) (acc @ pg) w3 = Some (Inr ((acc @ pg) @ concat rest), w')"
        and texts: "queryTexts w' = queryTexts w3
                      @ map (\<lambda>i. paginatedSql sql (s + p + int i * p) p) [0..<length rest]"
      by blast
    have shift: "map (\<lambda>i. paginatedSql sql (s + int i * p) p) [0..<length (pg # rest)]
                 = paginatedSql sql s p # map (\<lambda>i. paginatedSql sql (s + p + int i * p) p) [0..<length rest]"
      by (simp add: upt_conv_Cons map_Suc_upt [symmetric] algebra_simps del: upt_Suc)
    show ?thesis
      using loop long res texts texts3 shift by simp
  qed
qed

lemmas query_defs = entityValue_def objectKeys_def spreadItems_def pageItems_def
  metadataKeys_def queryRequest_def paginatedSql_def queryFailure_def

subsection \<open>Pagination\<close>

text \<open>
  C7. Let the page size \<open>p\<close> be between 1 and 1000, let the client be authorized, and let
  the API answer the successive queries for the positions 1, 1 + p, 1 + 2 p, ... with the
  pages of a non-empty list, every page but the last of length p or more and the last of
  length less than p. Then \<^verbatim>\<open>queryAll\<close> returns, and what it returns is the concatenation
  of the pages in that order; the queries it has sent are exactly one for each page, the
  i-th (from 0) being the base query followed by
  \<^verbatim>\<open>STARTPOSITION 1 + i p MAXRESULTS p\<close>. So the loop starts at position 1, advances by p
  after each full page and ends at the first short page, whatever \<^verbatim>\<open>totalCount\<close> says.
\<close>

theorem queryAll_pagination:
  assumes "1 \<le> p" and "p \<le> 1000" and "authorized w" and "pages \<noteq> []"
    and "servesPages (api w) (apiCalls w) sql 1 p pages"
    and "\<forall>pg \<in> set (butlast pages). p \<le> int (length pg)"
    and "int (length (last pages)) < p"
  shows "\<exists>w'. queryAll sql p w = Some (Inr (concat pages), w')
            \<and> queryTexts w' = queryTexts w
                 @ map (\<lambda>i. paginatedSql sql (1 + int i * p) p) [0..<length pages]"
proof -
  have "min p 1000 = p" using assms(2) by simp
  then show ?thesis
    using queryAllLoop_pages [OF assms(3) assms(4) assms(5) assms(6) assms(7), of "[]"]
    by (simp add: queryAll_def)
qed

theorem queryAll_pagination_witness:
  "map_option fst (queryAll ''SELECT * FROM Invoice'' 2 bookkeeping) = Some (Inr records)
   \<and> map_option (queryTexts \<circ> snd) (queryAll ''SELECT * FROM Invoice'' 2 bookkeeping)
       = Some [''SELECT * FROM Invoice STARTPOSITION 1 MAXRESULTS 2'',
               ''SELECT * FROM Invoice STARTPOSITION 3 MAXRESULTS 2'',
               ''SELECT * FROM Invoice STARTPOSITION 5 MAXRESULTS 2'']"
proof -
  let ?pages = "[[JObj [(''Id'', JStr ''1'')], JObj [(''Id'', JStr ''2'')]],
                 [JObj [(''Id'', JStr ''3'')], JObj [(''Id'', JStr ''4'')]],
                 [JObj [(''Id'', JStr ''5'')]]]"
  have auth: "authorized bookkeeping"
    by (simp add: authorized_def bookkeeping_def connected_def offline_def)
  have serves: "servesPages (api bookkeeping) (apiCalls bookkeeping) ''SELECT * FROM Invoice'' 1 2 ?pages"
    by (simp add: bookkeeping_def connected_def offline_def servesPage_def datasetServer_def
          records_def envelope_def reply_def ok_def parseInt10_def isSpace_def isDigit_def
          digitVal_def query_defs showInt_def showNat.simps)
  have texts: "queryTexts bookkeeping = []"
    by (simp add: bookkeeping_def connected_def offline_def queryTexts_def)
  from queryAll_pagination [of 2 bookkeeping ?pages "''SELECT * FROM Invoice''", OF _ _ auth _ serves]
  obtain w' where "queryAll ''SELECT * FROM Invoice'' 2 bookkeeping = Some (Inr (concat ?pages), w')"
    and "queryTexts w' = queryTexts bookkeeping
           @ map (\<lambda>i. paginatedSql ''SELECT * FROM Invoice'' (1 + int i * 2) 2) [0..<length ?pages]"
    by auto
  then show ?thesis
    using texts
    by (simp add: records_def paginatedSql_def showInt_def showNat.simps upt_conv_Cons)
qed

subsection \<open>The cap on the page size\<close>

lemma queryAllLoop_never_breaks:
  assumes "queryAllLoop sql p s acc w = Some y" and "p \<le> 0"
  shows "\<forall>xs w'. y \<noteq> (Inr xs, w')"
  using assms
proof (induction sql p s acc w y rule: queryAllLoop.raw_induct [rotated, consumes 1])
  case (1 loop sql p s acc w y)
  from "1.hyps" "1.prems" "1.IH" show ?case
    by (auto simp add: Let_def split: prod.splits sum.splits if_splits)
qed

lemma queryAllLoop_never_fails:
  assumes "queryAllLoop sql p s acc w = Some y" and "authorized w"
    and "\<forall>n \<ge> apiCalls w. \<forall>text. \<exists>pg. servesPage (api w) n text pg"
  shows "\<exists>xs w'. y = (Inr xs, w')"
  using assms
proof (induction sql p s acc w y rule: queryAllLoop.raw_induct [rotated, consumes 1])
  case (1 loop sql p s acc w y)
  from getValidTokens_authorized [OF "1.prems"(1)] obtain t w1
    where g: "getValidTokens w = (Inr t, w1)" and a1: "authorized w1" and api1: "api w1 = api w"
      and calls1: "apiCalls w1 = apiCalls w"
    by blast
  let ?w2 = "checkRateLimit w1"
  let ?text = "paginatedSql sql s p"
  let ?req = "queryRequest (config_environment ?w2) t ?text"
  from "1.prems"(2) obtain pg where "servesPage (api w) (apiCalls w) ?text pg" by blast
  then have "servesPage (api ?w2) (apiCalls ?w2) ?text pg"
    by (simp add: checkRateLimit_frame api1 calls1)
  from fetch_page [OF this, of "config_environment ?w2" t] obtain r
    where f: "fetch ?req ?w2
                = (Inr r, ?w2\<lparr>apiCalls := Suc (apiCalls ?w2), trace := trace ?w2 @ [Fetch ?req]\<rparr>)"
      and okr: "ok r" and items: "pageItems r = Inr pg"
    by blast
  let ?w3 = "?w2\<lparr>apiCalls := Suc (apiCalls ?w2), trace := trace ?w2 @ [Fetch ?req]\<rparr>"
  have a3: "authorized ?w3"
    using a1 checkRateLimit_frame(1) [of w1] by (simp add: authorized_def)
  have served3: "\<forall>n \<ge> apiCalls ?w3. \<forall>text. \<exists>pg. servesPage (api ?w3) n text pg"
    using "1.prems"(2) by (simp add: checkRateLimit_frame api1 calls1)
  have step: "(if int (length pg) < p then Some (Inr (acc @ pg), ?w3)
               else loop sql p (s + p) (acc @ pg) ?w3) = Some y"
    using "1.hyps" g f okr items
    by (auto simp add: Let_def pageItems_def split: sum.splits)
  show ?case
  proof (cases "int (length pg) < p")
    case True
    with step show ?thesis by auto
  next
    case False
    with step have "loop sql p (s + p) (acc @ pg) ?w3 = Some y" by simp
    from "1.IH" [OF this a3 served3] show ?thesis .
  qed
qed

text \<open>
  C10. \<^verbatim>\<open>queryAll\<close> caps the page size from above only: whatever the page size, it
  runs the loop with \<open>min pageSize 1000\<close>. So when the client is authorized and the API
  answers the successive queries for the positions 1, 1 + m, 1 + 2 m, ... with page size
  \<open>m = min pageSize 1000\<close> by the pages of a non-empty list, every page but the last of
  length m or more and the last of length less than m, \<^verbatim>\<open>queryAll\<close> returns the
  concatenation of the pages, and every query it has sent asked for \<^verbatim>\<open>MAXRESULTS m\<close>.
  There is no lower bound: for a page size of 0 or less the loop never takes its exit, so
  \<^verbatim>\<open>queryAll\<close> never returns a result, in any environment; it can end only by throwing,
  which it does when a page request fails. When the client is authorized and every page
  request succeeds, with whatever pages, empty ones included, it does not end at all.
\<close>

theorem queryAll_page_size_cap:
  "queryAll sql pageSize w = queryAllLoop sql (min pageSize 1000) 1 [] w
   \<and> (authorized w \<and> pages \<noteq> []
        \<and> servesPages (api w) (apiCalls w) sql 1 (min pageSize 1000) pages
        \<and> (\<forall>pg \<in> set (butlast pages). min pageSize 1000 \<le> int (length pg))
        \<and> int (length (last pages)) < min pageSize 1000
      \<longrightarrow> (\<exists>w'. queryAll sql pageSize w = Some (Inr (concat pages), w')
                \<and> queryTexts w' = queryTexts w
                     @ map (\<lambda>i. paginatedSql sql (1 + int i * min pageSize 1000) (min pageSize 1000))
                         [0..<length pages]))
   \<and> (pageSize \<le> 0 \<longrightarrow>
        (\<forall>xs w'. queryAll sql pageSize w \<noteq> Some (Inr xs, w'))
        \<and> (authorized w \<and> (\<forall>n \<ge> apiCalls w. \<forall>text. \<exists>pg. servesPage (api w) n text pg)
             \<longrightarrow> queryAll sql pageSize w = None))"
proof -
  have unfold: "queryAll sql pageSize w = queryAllLoop sql (min pageSize 1000) 1 [] w"
    by (simp add: queryAll_def)
  have capped: "\<exists>w'. queryAll sql pageSize w = Some (Inr (concat pages), w')
                \<and> queryTexts w' = queryTexts w
                     @ map (\<lambda>i. paginatedSql sql (1 + int i * min pageSize 1000) (min pageSize 1000))
                         [0..<length pages]"
    if "authorized w" and "pages \<noteq> []"
      and "servesPages (api w) (apiCalls w) sql 1 (min pageSize 1000) pages"
      and "\<forall>pg \<in> set (butlast pages). min pageSize 1000 \<le> int (length pg)"
      and "int (length (last pages)) < min pageSize 1000"
    using queryAllLoop_pages [OF that, of "[]"] unfolding unfold by simp
  have never: "\<forall>xs w'. queryAll sql pageSize w \<noteq> Some (Inr xs, w')" if "pageSize \<le> 0"
  proof -
    from that have cap: "min pageSize 1000 \<le> 0" by simp
    show ?thesis using queryAllLoop_never_breaks [OF _ cap] unfolding unfold by blast
  qed
  have diverges: "queryAll sql pageSize w = None"
    if "pageSize \<le> 0" and "authorized w"
      and "\<forall>n \<ge> apiCalls w. \<forall>text. \<exists>pg. servesPage (api w) n text pg"
  proof (cases "queryAll sql pageSize w")
    case None
    then show ?thesis .
  next
    case (Some y)
    from that(1) have cap: "min pageSize 1000 \<le> 0" by simp
    from Some have loop: "queryAllLoop sql (min pageSize 1000) 1 [] w = Some y"
      by (simp add: unfold)
    from queryAllLoop_never_fails [OF loop that(2) that(3)] obtain xs w'
      where "y = (Inr xs, w')" by blast
    with queryAllLoop_never_breaks [OF loop cap] show ?thesis by blast
  qed
  from unfold capped never diverges show ?thesis by blast
qed

theorem queryAll_page_size_cap_witness:
  "map_option fst (queryAll ''SELECT * FROM Invoice'' 5000 emptyBooks) = Some (Inr [])
   \<and> map_option (queryTexts \<circ> snd) (queryAll ''SELECT * FROM Invoice'' 5000 emptyBooks)
       = Some [''SELECT * FROM Invoice STARTPOSITION 1 MAXRESULTS 1000'']
   \<and> queryAll ''SELECT * FROM Invoice'' 0 emptyBooks = None
   \<and> queryAll ''SELECT * FROM Invoice'' (- 5) emptyBooks = None"
proof -
  have auth: "authorized emptyBooks"
    by (simp add: authorized_def emptyBooks_def connected_def offline_def)
  have served: "\<forall>n \<ge> apiCalls emptyBooks. \<forall>text. \<exists>pg. servesPage (api emptyBooks) n text pg"
    by (simp add: emptyBooks_def connected_def offline_def servesPage_def reply_def ok_def
          query_defs)
  have page: "servesPages (api emptyBooks) (apiCalls emptyBooks) ''SELECT * FROM Invoice'' 1
                (min 5000 1000) [[]]"
    by (simp add: emptyBooks_def connected_def offline_def servesPage_def reply_def ok_def
          query_defs)
  have texts: "queryTexts emptyBooks = []"
    by (simp add: emptyBooks_def connected_def offline_def queryTexts_def)
  have full: "\<forall>pg \<in> set (butlast [[]::jsval list]). min 5000 1000 \<le> int (length pg)"
    and short: "int (length (last [[]::jsval list])) < min 5000 1000"
    and some: "[[]::jsval list] \<noteq> []"
    by simp_all
  from queryAll_page_size_cap [of "''SELECT * FROM Invoice''" 5000 emptyBooks "[[]]"]
    auth some page full short
  obtain w' where res: "queryAll ''SELECT * FROM Invoice'' 5000 emptyBooks = Some (Inr (concat [[]]), w')"
    and sent: "queryTexts w' = queryTexts emptyBooks
           @ map (\<lambda>i. paginatedSql ''SELECT * FROM Invoice'' (1 + int i * min 5000 1000) (min 5000 1000))
               [0..<length [[]::jsval list]]"
    by blast
  from res have first: "map_option fst (queryAll ''SELECT * FROM Invoice'' 5000 emptyBooks) = Some (Inr [])"
    by simp
  from res sent texts
  have second: "map_option (queryTexts \<circ> snd) (queryAll ''SELECT * FROM Invoice'' 5000 emptyBooks)
       = Some [''SELECT * FROM Invoice STARTPOSITION 1 MAXRESULTS 1000'']"
    by (simp add: paginatedSql_def showInt_def showNat.simps)
  have zero: "(0::int) \<le> 0" and minus: "(- 5::int) \<le> 0" by simp_all
  from queryAll_page_size_cap [of "''SELECT * FROM Invoice''" 0 emptyBooks] zero auth served
  have third: "queryAll ''SELECT * FROM Invoice'' 0 emptyBooks = None" by blast
  from queryAll_page_size_cap [of "''SELECT * FROM Invoice''" "- 5" emptyBooks] minus auth served
  have fourth: "queryAll ''SELECT * FROM Invoice'' (- 5) emptyBooks = None" by blast
  from first second third fourth show ?thesis by blast
qed

subsection \<open>Queries are not retried\<close>

lemma query_fetch_bound: "fetchCalls (snd (query text w)) \<le> Suc (fetchCalls w)"
proof -
  obtain res w1 where g: "getValidTokens w = (res, w1)" by (cases "getValidTokens w")
  have f1: "fetchCalls w1 = fetchCalls w" using fetchCalls_getValidTokens [of w] g by simp
  show ?thesis
  proof (cases res)
    case (Inl err)
    then show ?thesis using g f1 by (simp add: query_def)
  next
    case (Inr t)
    let ?req = "queryRequest (config_environment (checkRateLimit w1)) t text"
    obtain res3 w3 where f: "fetch ?req (checkRateLimit w1) = (res3, w3)"
      by (cases "fetch ?req (checkRateLimit w1)")
    have "fetchCalls w3 = Suc (fetchCalls w)"
      using fetchCalls_fetch [of ?req "checkRateLimit w1"] f f1 by simp
    then show ?thesis
      using g Inr f by (auto simp add: query_def Let_def split: sum.splits)
  qed
qed

text \<open>
  C1 fails on the code: \<^verbatim>\<open>query\<close> and \<^verbatim>\<open>queryAll\<close> call \<^verbatim>\<open>fetch\<close> themselves and have
  none of the retries of \<^verbatim>\<open>request\<close>. A 429 in answer to \<^verbatim>\<open>query\<close>, or to a page
  request of \<^verbatim>\<open>queryAll\<close>, is thrown after the one request with no delay, where
  \<^verbatim>\<open>request\<close> in the same world makes four requests with delays of 1000, 2000 and
  4000 ms; and a first 401 in answer to \<^verbatim>\<open>query\<close> is thrown with no refresh, where
  \<^verbatim>\<open>request\<close> refreshes, reissues and succeeds.
\<close>

theorem query_not_retried:
  "fst (query ''SELECT * FROM Invoice'' rateLimited)
     = Inl (QuickBooksError ''QuickBooks API rate limit exceeded'' RATE_LIMIT (Some 429)
              (JObj [(''status'', JNum 429)]))
   \<and> fetchCalls (snd (query ''SELECT * FROM Invoice'' rateLimited)) = 1
   \<and> sleeps (snd (query ''SELECT * FROM Invoice'' rateLimited)) = []
   \<and> fetchCalls (snd (request ''GET'' ''/invoice/1'' JUndefined 0 rateLimited)) = 4
   \<and> sleeps (snd (request ''GET'' ''/invoice/1'' JUndefined 0 rateLimited))
     = [Sleep (Some 1000), Sleep (Some 2000), Sleep (Some 4000)]
   \<and> fst (query ''SELECT * FROM Invoice'' sessionExpired)
     = Inl (QuickBooksError ''Unauthorized access to QuickBooks API'' UNAUTHORIZED (Some 401)
              (JObj [(''status'', JNum 401)]))
   \<and> fetchCalls (snd (query ''SELECT * FROM Invoice'' sessionExpired)) = 1
   \<and> refreshCalls (snd (query ''SELECT * FROM Invoice'' sessionExpired)) = 0
   \<and> fst (request ''GET'' ''/invoice/1'' JUndefined 0 sessionExpired) = Inr invoice
   \<and> fetchCalls (snd (request ''GET'' ''/invoice/1'' JUndefined 0 sessionExpired)) = 2
   \<and> refreshCalls (snd (request ''GET'' ''/invoice/1'' JUndefined 0 sessionExpired)) = 1
   \<and> map_option fst (queryAll ''SELECT * FROM Invoice'' 1000 rateLimited)
     = Some (Inl (QuickBooksError ''QuickBooks API rate limit exceeded'' RATE_LIMIT (Some 429)
              (JObj [(''status'', JNum 429)])))
   \<and> map_option (fetchCalls \<circ> snd) (queryAll ''SELECT * FROM Invoice'' 1000 rateLimited) = Some 1"
  by (simp add: rateLimited_def sessionExpired_def scenario_defs request.simps query_def queryAll_def queryAllLoop.simps
        query_defs client_defs trace_defs)

text \<open>
  What the query engine does in general: \<^verbatim>\<open>query\<close>, and each turn of the loop of
  \<^verbatim>\<open>queryAll\<close>, obtains credentials with \<^verbatim>\<open>getValidTokens\<close>, runs the rate check and
  issues one \<^verbatim>\<open>fetch\<close>; when the response is not ok, 429 and 401 included, the call ends
  there with the normalised error: the world it leaves is the one right after that
  \<^verbatim>\<open>fetch\<close>, with no timer started and no refresh made since. In any case \<^verbatim>\<open>query\<close>
  makes at most one request.
\<close>

lemma query_single_attempt:
  assumes "getValidTokens w = (Inr t, w1)"
    and "fetch (queryRequest (config_environment (checkRateLimit w1)) t text) (checkRateLimit w1)
           = (Inr r, w3)"
    and "\<not> ok r"
  shows "query text w = (Inl (queryFailure r), w3)
         \<and> (text = paginatedSql sql s p \<longrightarrow>
              queryAllLoop sql p s acc w = Some (Inl (queryFailure r), w3))
         \<and> fetchCalls w3 = Suc (fetchCalls w)
         \<and> sleeps w3 = sleeps (checkRateLimit w1)
         \<and> refreshCalls w3 = refreshCalls w1
         \<and> fetchCalls (snd (query text w)) \<le> Suc (fetchCalls w)"
proof -
  have q: "query text w = (Inl (queryFailure r), w3)"
    using assms by (simp add: query_def Let_def)
  have l: "text = paginatedSql sql s p \<longrightarrow>
              queryAllLoop sql p s acc w = Some (Inl (queryFailure r), w3)"
    using assms by (subst queryAllLoop.simps) (auto simp add: Let_def)
  have w3: "w3 = (checkRateLimit w1)\<lparr>apiCalls := Suc (apiCalls (checkRateLimit w1)),
              trace := trace (checkRateLimit w1)
                @ [Fetch (queryRequest (config_environment (checkRateLimit w1)) t text)]\<rparr>"
    using assms(2) by (auto simp add: fetch_def Let_def split: api_reply.splits)
  have f: "fetchCalls w3 = Suc (fetchCalls w)"
    using fetchCalls_getValidTokens [of w] assms(1)
      fetchCalls_fetch [of "queryRequest (config_environment (checkRateLimit w1)) t text"
        "checkRateLimit w1"] assms(2)
    by simp
  have sl: "sleeps w3 = sleeps (checkRateLimit w1)"
    by (subst w3) (simp add: sleeps_def)
  have rf: "refreshCalls w3 = refreshCalls w1"
    by (subst w3) (simp add: refreshCalls_def checkRateLimit_def Let_def sleep_def)
  from q l f sl rf query_fetch_bound [of "text" w] show ?thesis by blast
qed

lemma query_single_attempt_example:
  "query ''SELECT * FROM Invoice'' rateLimited
     = (Inl (QuickBooksError ''QuickBooks API rate limit exceeded'' RATE_LIMIT (Some 429)
              (JObj [(''status'', JNum 429)])),
        snd (query ''SELECT * FROM Invoice'' rateLimited))
   \<and> fetchCalls (snd (query ''SELECT * FROM Invoice'' rateLimited)) = 1"
proof -
  let ?w1 = "snd (getValidTokens rateLimited)"
  let ?r = "\<lparr>status = 429, retryAfter = None, json = Inr (JObj [])\<rparr>"
  let ?w3 = "snd (fetch (queryRequest (config_environment (checkRateLimit ?w1)) credentials
                 ''SELECT * FROM Invoice'') (checkRateLimit ?w1))"
  have tokens: "getValidTokens rateLimited = (Inr credentials, ?w1)"
    by (simp add: rateLimited_def scenario_defs client_defs)
  have fetched:
    "fetch (queryRequest (config_environment (checkRateLimit ?w1)) credentials
              ''SELECT * FROM Invoice'') (checkRateLimit ?w1) = (Inr ?r, ?w3)"
    by (simp add: rateLimited_def scenario_defs client_defs)
  have failed: "\<not> ok ?r" by (simp add: ok_def)
  have none: "fetchCalls rateLimited = 0" by (simp add: rateLimited_def scenario_defs trace_defs)
  have failure: "queryFailure ?r
     = QuickBooksError ''QuickBooks API rate limit exceeded'' RATE_LIMIT (Some 429)
              (JObj [(''status'', JNum 429)])"
    by (simp add: query_defs client_defs)
  note single = query_single_attempt [OF tokens fetched failed]
  from single have q: "query ''SELECT * FROM Invoice'' rateLimited = (Inl (queryFailure ?r), ?w3)"
    by blast
  from single none have "fetchCalls ?w3 = 1" by simp
  with q failure show ?thesis by simp
qed

end
